theory Spec2Isabelle
  imports Complex_Main "HOL-Library.Word"
begin

unbundle bit_operations_syntax

section \<open>Python strings\<close>

text \<open>
  A Python \<open>str\<close> is modelled as a \<open>string\<close> whose characters are the code points
  below 256 (Latin-1); \<open>length\<close> is Python's \<open>len\<close>. On this range \<open>str.lower\<close> maps
  \<open>A\<close>..\<open>Z\<close> and the accented capitals \<open>0xC0\<close>..\<open>0xDE\<close> (without the multiplication sign
  \<open>0xD7\<close>) to the code point 32 above and leaves every other character as it is, and
  \<open>str.encode()\<close> (UTF-8) writes a code point below 128 as one byte and the others as two.
\<close>

type_synonym byte = "8 word"

definition py_lower_char :: "char \<Rightarrow> char" where
  "py_lower_char c =
     (let n = (of_char c :: nat)
      in if (65 \<le> n \<and> n \<le> 90) \<or> (192 \<le> n \<and> n \<le> 222 \<and> n \<noteq> 215)
         then char_of (n + 32) else c)"

definition py_lower :: "string \<Rightarrow> string" where
  "py_lower s = map py_lower_char s"

text \<open>\<open>s.rstrip(chars)\<close>: drop the longest suffix made of characters of \<open>chars\<close>.\<close>

definition py_rstrip :: "string \<Rightarrow> string \<Rightarrow> string" where
  "py_rstrip chars s = rev (dropWhile (\<lambda>c. c \<in> set chars) (rev s))"

text \<open>
  \<open>str.isspace\<close> on one character below 256: tab to carriage return, the separators
  \<open>0x1C\<close>..\<open>0x1F\<close>, space, \<open>0x85\<close> and the no-break space. \<open>s.strip()\<close> drops such characters
  from both ends.
\<close>

definition py_isspace :: "char \<Rightarrow> bool" where
  "py_isspace c =
     (let n = (of_char c :: nat)
      in (9 \<le> n \<and> n \<le> 13) \<or> (28 \<le> n \<and> n \<le> 32) \<or> n = 133 \<or> n = 160)"

definition py_strip :: "string \<Rightarrow> string" where
  "py_strip s = rev (dropWhile py_isspace (rev (dropWhile py_isspace s)))"

text \<open>\<open>s.replace(a, b)\<close> for one-character \<open>a\<close> and \<open>b\<close>.\<close>

definition py_replace_char :: "char \<Rightarrow> char \<Rightarrow> string \<Rightarrow> string" where
  "py_replace_char a b s = map (\<lambda>c. if c = a then b else c) s"

text \<open>\<open>sep.join(parts)\<close>.\<close>

fun py_join :: "string \<Rightarrow> string list \<Rightarrow> string" where
  "py_join sep [] = []"
| "py_join sep [x] = x"
| "py_join sep (x # y # ys) = x @ sep @ py_join sep (y # ys)"

text \<open>\<open>s.startswith(prefix)\<close>, \<open>s.endswith(suffix)\<close> and \<open>sub in s\<close>.\<close>

definition py_startswith :: "string \<Rightarrow> string \<Rightarrow> bool" where
  "py_startswith prefix s = (take (length prefix) s = prefix)"

definition py_endswith :: "string \<Rightarrow> string \<Rightarrow> bool" where
  "py_endswith suffix s = (length suffix \<le> length s \<and> drop (length s - length suffix) s = suffix)"

fun py_contains :: "string \<Rightarrow> string \<Rightarrow> bool" where
  "py_contains sub [] = (sub = [])"
| "py_contains sub (c # cs) = (py_startswith sub (c # cs) \<or> py_contains sub cs)"

text \<open>\<open>x or ""\<close> on an optional string: \<open>None\<close> and the empty string both give \<open>""\<close>.\<close>

definition py_or_empty :: "string option \<Rightarrow> string" where
  "py_or_empty x = (case x of None \<Rightarrow> [] | Some s \<Rightarrow> s)"

text \<open>\<open>xs or []\<close> on an optional list.\<close>

definition py_or_nil :: "'a list option \<Rightarrow> 'a list" where
  "py_or_nil x = (case x of None \<Rightarrow> [] | Some xs \<Rightarrow> xs)"

definition py_encode :: "string \<Rightarrow> byte list" where
  "py_encode s =
     concat (map (\<lambda>c. let n = (of_char c :: nat)
                       in if n < 128 then [word_of_nat n]
                          else [word_of_nat (192 + n div 64), word_of_nat (128 + n mod 64)]) s)"

section \<open>SHA-256 (\<open>hashlib.sha256(...).hexdigest()\<close>)\<close>

text \<open>
  The digest the code obtains from \<open>hashlib\<close>, written out after FIPS 180-4 on 32-bit words:
  padding to a multiple of 64 bytes, the message schedule of 64 words per block, 64 rounds
  of compression, and the eight state words printed as 64 lower-case hexadecimal digits.
  The round constants and the initial state are the standard's, written in decimal.
\<close>

type_synonym w32 = "32 word"

type_synonym sha_state = "w32 \<times> w32 \<times> w32 \<times> w32 \<times> w32 \<times> w32 \<times> w32 \<times> w32"

definition rotr :: "nat \<Rightarrow> w32 \<Rightarrow> w32" where
  "rotr n x = (drop_bit n x) OR (push_bit (32 - n) x)"

definition ch :: "w32 \<Rightarrow> w32 \<Rightarrow> w32 \<Rightarrow> w32" where
  "ch x y z = (x AND y) XOR (NOT x AND z)"

definition maj :: "w32 \<Rightarrow> w32 \<Rightarrow> w32 \<Rightarrow> w32" where
  "maj x y z = (x AND y) XOR (x AND z) XOR (y AND z)"

definition bsig0 :: "w32 \<Rightarrow> w32" where
  "bsig0 x = rotr 2 x XOR rotr 13 x XOR rotr 22 x"

definition bsig1 :: "w32 \<Rightarrow> w32" where
  "bsig1 x = rotr 6 x XOR rotr 11 x XOR rotr 25 x"

definition ssig0 :: "w32 \<Rightarrow> w32" where
  "ssig0 x = rotr 7 x XOR rotr 18 x XOR drop_bit 3 x"

definition ssig1 :: "w32 \<Rightarrow> w32" where
  "ssig1 x = rotr 17 x XOR rotr 19 x XOR drop_bit 10 x"

definition sha256_k :: "w32 list" where
  "sha256_k =
   [1116352408, 1899447441, 3049323471, 3921009573,
    961987163, 1508970993, 2453635748, 2870763221,
    3624381080, 310598401, 607225278, 1426881987,
    1925078388, 2162078206, 2614888103, 3248222580,
    3835390401, 4022224774, 264347078, 604807628,
    770255983, 1249150122, 1555081692, 1996064986,
    2554220882, 2821834349, 2952996808, 3210313671,
    3336571891, 3584528711, 113926993, 338241895,
    666307205, 773529912, 1294757372, 1396182291,
    1695183700, 1986661051, 2177026350, 2456956037,
    2730485921, 2820302411, 3259730800, 3345764771,
    3516065817, 3600352804, 4094571909, 275423344,
    430227734, 506948616, 659060556, 883997877,
    958139571, 1322822218, 1537002063, 1747873779,
    1955562222, 2024104815, 2227730452, 2361852424,
    2428436474, 2756734187, 3204031479, 3329325298]"

definition sha256_h0 :: sha_state where
  "sha256_h0 = (1779033703, 3144134277, 1013904242, 2773480762,
                1359893119, 2600822924, 528734635, 1541459225)"

fun be_word :: "byte list \<Rightarrow> w32" where
  "be_word [] = 0"
| "be_word (b # bs) = push_bit (8 * length bs) (ucast b) + be_word bs"

fun chunks :: "nat \<Rightarrow> 'a list \<Rightarrow> 'a list list" where
  "chunks n xs = (if n = 0 \<or> xs = [] then [] else take n xs # chunks n (drop n xs))"

definition be_bytes64 :: "nat \<Rightarrow> byte list" where
  "be_bytes64 n =
     (let w = (word_of_nat n :: 64 word)
      in map (\<lambda>i. ucast (drop_bit (8 * (7 - i)) w)) [0..<8])"

definition sha256_pad :: "byte list \<Rightarrow> byte list" where
  "sha256_pad m =
     (let l = length m; k = (119 - l mod 64) mod 64
      in m @ [128] @ replicate k 0 @ be_bytes64 (8 * l))"

fun schedule :: "nat \<Rightarrow> w32 list \<Rightarrow> w32 list" where
  "schedule 0 w = w"
| "schedule (Suc n) w =
     (let t = length w
      in schedule n
           (w @ [ssig1 (w ! (t - 2)) + w ! (t - 7) + ssig0 (w ! (t - 15)) + w ! (t - 16)]))"

fun sha_round :: "sha_state \<Rightarrow> w32 \<times> w32 \<Rightarrow> sha_state" where
  "sha_round (a, b, c, d, e, f, g, h) (k, w) =
     (let t1 = h + bsig1 e + ch e f g + k + w;
          t2 = bsig0 a + maj a b c
      in (t1 + t2, a, b, c, d + t1, e, f, g))"

fun add_state :: "sha_state \<Rightarrow> sha_state \<Rightarrow> sha_state" where
  "add_state (a, b, c, d, e, f, g, h) (a', b', c', d', e', f', g', h') =
     (a + a', b + b', c + c', d + d', e + e', f + f', g + g', h + h')"

definition compress :: "sha_state \<Rightarrow> byte list \<Rightarrow> sha_state" where
  "compress st block =
     (let w = schedule 48 (map be_word (chunks 4 block))
      in add_state st (foldl sha_round st (zip sha256_k w)))"

definition sha256 :: "byte list \<Rightarrow> sha_state" where
  "sha256 m = foldl compress sha256_h0 (chunks 64 (sha256_pad m))"

definition hex_digit :: "nat \<Rightarrow> char" where
  "hex_digit n = ''0123456789abcdef'' ! (n mod 16)"

definition hex32 :: "w32 \<Rightarrow> string" where
  "hex32 w = map (\<lambda>i. hex_digit (unat (drop_bit (4 * (7 - i)) w))) [0..<8]"

fun hex_state :: "sha_state \<Rightarrow> string" where
  "hex_state (a, b, c, d, e, f, g, h) = concat (map hex32 [a, b, c, d, e, f, g, h])"

definition sha256_hexdigest :: "byte list \<Rightarrow> string" where
  "sha256_hexdigest m = hex_state (sha256 m)"

section \<open>Deduplication keys and content hashes (\<open>app/utils/dedupe.py\<close>)\<close>

definition generate_dedupe_key :: "string \<Rightarrow> string \<Rightarrow> string" where
  "generate_dedupe_key source_type source_url =
     (let normalized_url = py_lower (py_rstrip ''/'' source_url);
          key_string = source_type @ ''::'' @ normalized_url
      in if length key_string \<le> 500 then key_string
         else sha256_hexdigest (py_encode key_string))"

text \<open>
  A code snippet is a dictionary; a field is \<open>None\<close> when the key is absent. The first
  three keys are written by the extractors, the last three by enrichment.
\<close>

record code_snippet =
  sn_language :: "string option"
  sn_code :: "string option"
  sn_context :: "string option"
  sn_intent :: "string option"
  sn_dependencies :: "string list option"
  sn_pitfalls :: "string list option"

text \<open>\<open>f"{snippet.get('language', '')}::{snippet.get('code', '')}"\<close>\<close>

definition snippet_str :: "code_snippet \<Rightarrow> string" where
  "snippet_str snippet =
     py_or_empty (sn_language snippet) @ ''::'' @ py_or_empty (sn_code snippet)"

definition content_string :: "string option \<Rightarrow> string option \<Rightarrow> code_snippet list option \<Rightarrow> string" where
  "content_string title body_text code_snippets =
     py_join ''|||''
       ([py_or_empty title, py_or_empty body_text] @ map snippet_str (py_or_nil code_snippets))"

definition generate_content_hash ::
    "string option \<Rightarrow> string option \<Rightarrow> code_snippet list option \<Rightarrow> string" where
  "generate_content_hash title body_text code_snippets =
     sha256_hexdigest (py_encode (content_string title body_text code_snippets))"

text \<open>The (language, code) pair of a snippet as the hash reads it.\<close>

definition language_code :: "code_snippet \<Rightarrow> string \<times> string" where
  "language_code snippet = (py_or_empty (sn_language snippet), py_or_empty (sn_code snippet))"

text \<open>
  Inputs in which the separators cannot be confused with content: no hashed part (the
  title, the body text, the string of a snippet) contains \<open>|||\<close> or ends with \<open>|\<close>, and no
  language contains \<open>::\<close> or ends with \<open>:\<close>. A title such as \<open>Post | Blog\<close> and a code such
  as \<open>ls | wc\<close> are among them.
\<close>

definition bar_safe :: "string \<Rightarrow> bool" where
  "bar_safe part \<longleftrightarrow> \<not> py_contains ''|||'' part \<and> \<not> py_endswith ''|'' part"

definition colon_safe :: "string \<Rightarrow> bool" where
  "colon_safe language \<longleftrightarrow> \<not> py_contains ''::'' language \<and> \<not> py_endswith '':'' language"

definition delimiter_free :: "string option \<Rightarrow> string option \<Rightarrow> code_snippet list option \<Rightarrow> bool" where
  "delimiter_free title body_text code_snippets \<longleftrightarrow>
     bar_safe (py_or_empty title) \<and> bar_safe (py_or_empty body_text) \<and>
     (\<forall>s \<in> set (py_or_nil code_snippets).
        bar_safe (snippet_str s) \<and> colon_safe (fst (language_code s)))"

section \<open>Exceptions\<close>

text \<open>
  The exceptions the code raises or meets: Python's own, pydantic's \<open>ValidationError\<close>,
  Celery's \<open>Retry\<close> with its countdown in seconds, an error of the AI provider's API and
  an error of the database on commit.
\<close>

datatype py_exception =
  JSONDecodeError | ValidationError | TypeError | ValueError | UnboundLocalError
  | ApiError | Retry nat | CommitError

section \<open>Enrichment schema (\<open>app/ai/schemas.py\<close>)\<close>

text \<open>
  The keyword arguments a decoded JSON object hands to a schema class, field by field:
  \<open>None\<close> is an absent key. Numbers are reals; a field of the wrong JSON type is outside
  this model.
\<close>

record snippet_enrichment_data =
  sd_intent :: "string option"
  sd_dependencies :: "string list option"
  sd_pitfalls :: "string list option"

record code_snippet_enrichment =
  se_intent :: string
  se_dependencies :: "string list"
  se_pitfalls :: "string list"

record enrichment_data =
  ed_summary :: "string option"
  ed_tags :: "string list option"
  ed_primary_language :: "string option"
  ed_framework :: "string option"
  ed_quality_score :: "real option"
  ed_code_snippets :: "snippet_enrichment_data list option"

record knowledge_item_enrichment =
  en_summary :: string
  en_tags :: "string list"
  en_primary_language :: "string option"
  en_framework :: "string option"
  en_quality_score :: real
  en_code_snippets :: "code_snippet_enrichment list"

text \<open>\<open>CodeSnippetEnrichment\<close>: \<open>intent\<close> is required, the two lists default to \<open>[]\<close>.\<close>

definition CodeSnippetEnrichment :: "snippet_enrichment_data \<Rightarrow> py_exception + code_snippet_enrichment" where
  "CodeSnippetEnrichment d =
     (case sd_intent d of
        None \<Rightarrow> Inl ValidationError
      | Some i \<Rightarrow> Inr \<lparr>se_intent = i, se_dependencies = py_or_nil (sd_dependencies d),
                       se_pitfalls = py_or_nil (sd_pitfalls d)\<rparr>)"

text \<open>
  \<open>validate_tags\<close>:
  \<open>[tag.lower().strip().replace(' ', '-') for tag in v if tag.strip()]\<close>
\<close>

definition validate_tags :: "string list \<Rightarrow> string list" where
  "validate_tags v =
     map (\<lambda>tag. py_replace_char CHR '' '' CHR ''-'' (py_strip (py_lower tag)))
       (filter (\<lambda>tag. py_strip tag \<noteq> []) v)"

fun validate_all :: "('a \<Rightarrow> py_exception + 'b) \<Rightarrow> 'a list \<Rightarrow> py_exception + 'b list" where
  "validate_all f [] = Inr []"
| "validate_all f (x # xs) =
     (case f x of
        Inl e \<Rightarrow> Inl e
      | Inr y \<Rightarrow> (case validate_all f xs of Inl e \<Rightarrow> Inl e | Inr ys \<Rightarrow> Inr (y # ys)))"

text \<open>
  \<open>KnowledgeItemEnrichment(**data)\<close>: \<open>summary\<close>, \<open>tags\<close> and \<open>quality_score\<close> are required
  (\<open>Field(...)\<close>); \<open>max_length=500\<close>, \<open>min_items=0, max_items=15\<close> and \<open>ge=0.0, le=1.0\<close> are
  checked on the values given, and \<open>validate_tags\<close> then runs on the accepted tag list.
\<close>

definition KnowledgeItemEnrichment :: "enrichment_data \<Rightarrow> py_exception + knowledge_item_enrichment" where
  "KnowledgeItemEnrichment d =
     (case (ed_summary d, ed_tags d, ed_quality_score d) of
        (Some s, Some t, Some q) \<Rightarrow>
          if length s \<le> 500 \<and> 0 \<le> length t \<and> length t \<le> 15 \<and> 0 \<le> q \<and> q \<le> 1
          then (case validate_all CodeSnippetEnrichment (py_or_nil (ed_code_snippets d)) of
                  Inl e \<Rightarrow> Inl e
                | Inr cs \<Rightarrow> Inr \<lparr>en_summary = s, en_tags = validate_tags t,
                                 en_primary_language = ed_primary_language d,
                                 en_framework = ed_framework d,
                                 en_quality_score = q, en_code_snippets = cs\<rparr>)
          else Inl ValidationError
      | _ \<Rightarrow> Inl ValidationError)"

section \<open>Query construction (\<open>app/api/search.py\<close>)\<close>

text \<open>
  The Elasticsearch request is a nested dictionary. Its clauses are a datatype, one
  constructor per kind of clause the code builds; the \<open>bool\<close> query and the request are
  records whose optional keys are \<open>None\<close> when the code does not set them.
\<close>

datatype clause =
    MatchAll
  | ScriptScore clause string "real list"
  | MultiMatch string "string list" string string
  | Term string string
  | Terms string "string list"
  | RangeGte string string

record bool_query =
  bq_must :: "clause list option"
  bq_should :: "clause list option"
  bq_minimum_should_match :: "nat option"
  bq_filter :: "clause list option"

record search_request =
  sr_query :: bool_query
  sr_from :: int
  sr_size :: int
  sr_highlight :: bool

text \<open>Python truth of an optional string or list: present and not empty.\<close>

definition truthy :: "'a list option \<Rightarrow> bool" where
  "truthy x = (case x of None \<Rightarrow> False | Some v \<Rightarrow> v \<noteq> [])"

definition script_source :: string where
  "script_source = ''cosineSimilarity(params.query_vector, '' @ [CHR 0x27] @ ''embedding''
                     @ [CHR 0x27] @ '') + 1.0''"

definition vector_query :: "real list \<Rightarrow> clause" where
  "vector_query query_embedding = ScriptScore MatchAll script_source query_embedding"

definition keyword_query :: "string \<Rightarrow> clause" where
  "keyword_query q =
     MultiMatch q [''title^3'', ''title.autocomplete^2'', ''body_text'', ''code_snippets.code'']
       ''best_fields'' ''AUTO''"

text \<open>\<open>d[key] = clauses\<close> only \<open>if clauses\<close>.\<close>

definition set_if_any :: "clause list \<Rightarrow> clause list option" where
  "set_if_any cs = (if cs \<noteq> [] then Some cs else None)"

text \<open>
  \<open>build_search_query\<close>. The three clause lists start empty; each pair below is
  (\<open>must_clauses\<close>, \<open>should_clauses\<close>) after one of the two \<open>if\<close> blocks of the source. The
  constant \<open>sort\<close> key of the request is left out.
\<close>

definition build_search_query ::
    "string option \<Rightarrow> string option \<Rightarrow> string option \<Rightarrow> string option \<Rightarrow> string list option \<Rightarrow>
     string option \<Rightarrow> bool \<Rightarrow> bool \<Rightarrow> real list option \<Rightarrow> int \<Rightarrow> int \<Rightarrow> search_request" where
  "build_search_query q source_type primary_language framework tags from_date
       semantic hybrid query_embedding page sz =
     (let (must1, should1) =
            (if semantic \<or> hybrid then
               (if truthy query_embedding then
                  (if semantic \<and> \<not> hybrid then ([vector_query (the query_embedding)], [])
                   else if hybrid then ([], [vector_query (the query_embedding)])
                   else ([], []))
                else ([], []))
             else ([], []));
          (must_clauses, should_clauses) =
            (if truthy q then
               (if semantic \<and> \<not> hybrid then (must1, should1)
                else if hybrid then (must1, should1 @ [keyword_query (the q)])
                else (must1 @ [keyword_query (the q)], should1))
             else if \<not> semantic then (must1 @ [MatchAll], should1)
             else (must1, should1));
          filter_clauses =
            (if truthy source_type then [Term ''source_type'' (the source_type)] else []) @
            (if truthy primary_language
             then [Term ''primary_language'' (py_lower (the primary_language))] else []) @
            (if truthy framework then [Term ''framework'' (py_lower (the framework))] else []) @
            (if truthy tags then [Terms ''tags'' (the tags)] else []) @
            (if truthy from_date then [RangeGte ''published_at'' (the from_date)] else [])
      in \<lparr>sr_query =
             \<lparr>bq_must = set_if_any must_clauses,
              bq_should = set_if_any should_clauses,
              bq_minimum_should_match =
                (if should_clauses \<noteq> [] then Some (if hybrid then 1 else 0) else None),
              bq_filter = set_if_any filter_clauses\<rparr>,
          sr_from = (page - 1) * sz,
          sr_size = sz,
          sr_highlight = truthy q\<rparr>)"

section \<open>Knowledge items and ingestion (\<open>app/db/models.py\<close>, \<open>app/ingest/base.py\<close>)\<close>

text \<open>
  A row of \<open>knowledge_items\<close>. The id is \<open>None\<close> on an object that has not been stored yet;
  ids stand for the UUIDs the database draws and are numbered from a counter. Times are
  seconds. The columns \<open>found_at\<close> and \<open>updated_at\<close>, which only the database server
  fills, are left out.
\<close>

record knowledge_item =
  ki_id :: "nat option"
  ki_source_type :: string
  ki_source_name :: string
  ki_source_url :: string
  ki_title :: string
  ki_summary :: "string option"
  ki_body_text :: string
  ki_code_snippets :: "code_snippet list"
  ki_tags :: "string list"
  ki_primary_language :: "string option"
  ki_framework :: "string option"
  ki_author :: "string option"
  ki_licence :: "string option"
  ki_published_at :: "nat option"
  ki_content_hash :: string
  ki_dedupe_key :: string
  ki_ai_summary :: "string option"
  ki_ai_tags :: "string list option"
  ki_ai_primary_language :: "string option"
  ki_ai_framework :: "string option"
  ki_ai_quality_score :: "real option"
  ki_ai_extracted_at :: "nat option"
  ki_embedding :: "real list option"

record store =
  rows :: "knowledge_item list"
  next_id :: nat

record ingest_stats =
  st_fetched :: nat
  st_processed :: nat
  st_stored :: nat
  st_indexed :: nat
  st_skipped :: nat

text \<open>
  \<open>db_session.query(KnowledgeItem).filter(KnowledgeItem.dedupe_key == key).first()\<close>
\<close>

definition first_by_dedupe_key :: "string \<Rightarrow> store \<Rightarrow> knowledge_item option" where
  "first_by_dedupe_key key db = find (\<lambda>r. ki_dedupe_key r = key) (rows db)"

text \<open>
  The update loop \<open>for key, value in item.__dict__.items(): if key != 'id' and not
  key.startswith('_'): setattr(existing, key, value)\<close>: the attributes of \<open>item\<close> are the
  fifteen that \<open>process_item\<close> passes to the constructor.
\<close>

definition overwrite :: "knowledge_item \<Rightarrow> knowledge_item \<Rightarrow> knowledge_item" where
  "overwrite existing item =
     existing\<lparr>ki_source_type := ki_source_type item,
              ki_source_name := ki_source_name item,
              ki_source_url := ki_source_url item,
              ki_title := ki_title item,
              ki_summary := ki_summary item,
              ki_body_text := ki_body_text item,
              ki_code_snippets := ki_code_snippets item,
              ki_tags := ki_tags item,
              ki_primary_language := ki_primary_language item,
              ki_framework := ki_framework item,
              ki_author := ki_author item,
              ki_licence := ki_licence item,
              ki_published_at := ki_published_at item,
              ki_content_hash := ki_content_hash item,
              ki_dedupe_key := ki_dedupe_key item\<rparr>"

text \<open>The row that \<open>first()\<close> returned, changed in place.\<close>

fun replace_first :: "('a \<Rightarrow> bool) \<Rightarrow> 'a \<Rightarrow> 'a list \<Rightarrow> 'a list" where
  "replace_first P y [] = []"
| "replace_first P y (x # xs) = (if P x then y # xs else x # replace_first P y xs)"

text \<open>
  The body of the loop of \<open>ingest\<close> for one processed item. \<open>commit_ok row\<close> says whether
  the database accepts the commit that writes \<open>row\<close>; when it raises, the \<open>except\<close> branch
  rolls the session back and goes on to the next item, after \<open>stored\<close> has already been
  counted. \<open>_index_item\<close> catches its own errors, so \<open>indexed\<close> is counted after every
  commit.
\<close>

definition ingest_item ::
    "(knowledge_item \<Rightarrow> bool) \<Rightarrow> knowledge_item \<Rightarrow> store \<times> ingest_stats \<Rightarrow> store \<times> ingest_stats" where
  "ingest_item commit_ok item = (\<lambda>(db, stats0).
     let stats = stats0\<lparr>st_processed := st_processed stats0 + 1\<rparr>
     in case first_by_dedupe_key (ki_dedupe_key item) db of
          Some existing \<Rightarrow>
            if ki_content_hash existing = ki_content_hash item
            then (db, stats\<lparr>st_skipped := st_skipped stats + 1\<rparr>)
            else
              let updated = overwrite existing item;
                  stats' = stats\<lparr>st_stored := st_stored stats + 1\<rparr>
              in if commit_ok updated
                 then (db\<lparr>rows := replace_first (\<lambda>r. ki_dedupe_key r = ki_dedupe_key item)
                                      updated (rows db)\<rparr>,
                       stats'\<lparr>st_indexed := st_indexed stats' + 1\<rparr>)
                 else (db, stats')
        | None \<Rightarrow>
            let added = item\<lparr>ki_id := Some (next_id db)\<rparr>;
                stats' = stats\<lparr>st_stored := st_stored stats + 1\<rparr>
            in if commit_ok added
               then (\<lparr>rows = rows db @ [added], next_id = next_id db + 1\<rparr>,
                     stats'\<lparr>st_indexed := st_indexed stats' + 1\<rparr>)
               else (db, stats'))"

text \<open>
  The loop \<open>for raw_item in raw_items\<close>: \<open>process_item\<close> is a parameter (it returns \<open>None\<close>
  when processing fails, and the item is passed over).
\<close>

fun ingest_loop ::
    "('raw \<Rightarrow> knowledge_item option) \<Rightarrow> (knowledge_item \<Rightarrow> bool) \<Rightarrow> 'raw list \<Rightarrow>
     store \<times> ingest_stats \<Rightarrow> store \<times> ingest_stats" where
  "ingest_loop process_item commit_ok [] s = s"
| "ingest_loop process_item commit_ok (raw_item # raw_items) s =
     (case process_item raw_item of
        None \<Rightarrow> ingest_loop process_item commit_ok raw_items s
      | Some item \<Rightarrow> ingest_loop process_item commit_ok raw_items (ingest_item commit_ok item s))"

text \<open>
  \<open>ingest\<close>: \<open>fetched\<close> is what \<open>fetch_items\<close> returned, or the exception it raised, in
  which case the statistics are returned as they are.
\<close>

definition ingest ::
    "('raw \<Rightarrow> knowledge_item option) \<Rightarrow> (knowledge_item \<Rightarrow> bool) \<Rightarrow> store \<Rightarrow>
     py_exception + 'raw list \<Rightarrow> store \<times> ingest_stats" where
  "ingest process_item commit_ok db fetched =
     (let stats = \<lparr>st_fetched = 0, st_processed = 0, st_stored = 0, st_indexed = 0, st_skipped = 0\<rparr>
      in case fetched of
           Inl e \<Rightarrow> (db, stats)
         | Inr raw_items \<Rightarrow>
             ingest_loop process_item commit_ok raw_items
               (db, stats\<lparr>st_fetched := length raw_items\<rparr>))"

text \<open>
  The items of a run that were counted in \<open>stored\<close> and whose commit then failed:
  \<open>stored\<close> is counted before \<open>db_session.commit()\<close> and \<open>indexed\<close> after it.
\<close>

definition uncommitted :: "ingest_stats \<Rightarrow> int" where
  "uncommitted stats = int (st_stored stats) - int (st_indexed stats)"

text \<open>
  A database that enforces the lengths declared for the \<open>String(n)\<close> columns of
  \<open>knowledge_items\<close> (PostgreSQL refuses a longer value): the commit of a row succeeds when
  every such column fits.
\<close>

definition fits :: "nat \<Rightarrow> string option \<Rightarrow> bool" where
  "fits n x = (case x of None \<Rightarrow> True | Some v \<Rightarrow> length v \<le> n)"

definition table_accepts :: "knowledge_item \<Rightarrow> bool" where
  "table_accepts row \<longleftrightarrow>
     length (ki_source_type row) \<le> 50 \<and> length (ki_source_name row) \<le> 200 \<and>
     length (ki_title row) \<le> 500 \<and> fits 100 (ki_primary_language row) \<and>
     fits 100 (ki_framework row) \<and> fits 200 (ki_author row) \<and> fits 100 (ki_licence row) \<and>
     length (ki_content_hash row) \<le> 64 \<and> length (ki_dedupe_key row) \<le> 500 \<and>
     fits 100 (ki_ai_primary_language row) \<and> fits 100 (ki_ai_framework row)"

text \<open>The items of a batch that \<open>process_item\<close> turns into a \<open>KnowledgeItem\<close>.\<close>

definition processed_items :: "('raw \<Rightarrow> knowledge_item option) \<Rightarrow> 'raw list \<Rightarrow> knowledge_item list" where
  "processed_items process_item raw_items = List.map_filter process_item raw_items"

text \<open>
  A batch in which items with the same deduplication key have the same content hash.
\<close>

definition key_consistent :: "knowledge_item list \<Rightarrow> bool" where
  "key_consistent items \<longleftrightarrow>
     (\<forall>a \<in> set items. \<forall>b \<in> set items.
        ki_dedupe_key a = ki_dedupe_key b \<longrightarrow> ki_content_hash a = ki_content_hash b)"

text \<open>
  An RSS item as \<open>process_item\<close> builds it, from its URL, body text and content hash.
\<close>

definition rss_item :: "string \<Rightarrow> string \<Rightarrow> string \<Rightarrow> knowledge_item" where
  "rss_item url body hash =
     \<lparr>ki_id = None, ki_source_type = ''rss'', ki_source_name = ''feed'', ki_source_url = url,
      ki_title = ''Post'', ki_summary = None, ki_body_text = body, ki_code_snippets = [],
      ki_tags = [], ki_primary_language = None, ki_framework = None, ki_author = None,
      ki_licence = None, ki_published_at = None, ki_content_hash = hash,
      ki_dedupe_key = generate_dedupe_key ''rss'' url,
      ki_ai_summary = None, ki_ai_tags = None, ki_ai_primary_language = None,
      ki_ai_framework = None, ki_ai_quality_score = None, ki_ai_extracted_at = None,
      ki_embedding = None\<rparr>"

text \<open>Every item of the list has a stored record with its key and its content hash.\<close>

definition up_to_date :: "store \<Rightarrow> knowledge_item list \<Rightarrow> bool" where
  "up_to_date db items \<longleftrightarrow>
     (\<forall>a \<in> set items. \<exists>r. first_by_dedupe_key (ki_dedupe_key a) db = Some r \<and>
                             ki_content_hash r = ki_content_hash a)"

definition accept_all :: "knowledge_item \<Rightarrow> bool" where
  "accept_all row = True"

definition empty_store :: store where
  "empty_store = \<lparr>rows = [], next_id = 0\<rparr>"

text \<open>
  Two entries of one feed whose URLs differ by the trailing slash and whose bodies differ;
  the hashes are the digests \<open>generate_content_hash\<close> gives for title \<open>Post\<close> and the two
  bodies.
\<close>

definition first_entry :: knowledge_item where
  "first_entry = rss_item ''http://x.com/a/'' ''first version''
     ''81d90f7aaec5a4624b8f3779ac520403dbacbac22b89e50a370be1ac6d5fa33b''"

definition second_entry :: knowledge_item where
  "second_entry = rss_item ''http://x.com/a'' ''second version''
     ''09a7906aaf86c887e303c74cd1e7d9ac97160026ed6552a5e3ac29c3fb1a4162''"

definition other_entry :: knowledge_item where
  "other_entry = rss_item ''http://x.com/b'' ''other''
     ''199700c7efa37247a2ebfdb4f7f909aac61aa66f251e1d3717f0b9c289e2d608''"

text \<open>
  An entry of the feed whose title has 501 characters, one more than the \<open>title\<close> column
  holds; the hash is the digest for this title and the body \<open>other\<close>.
\<close>

definition long_title_entry :: knowledge_item where
  "long_title_entry =
     (rss_item ''http://x.com/b'' ''other''
        ''ef766ba9ce0f0749eb258133a92e75ff4f242bfea7f355e32d0b56a466970343'')
     \<lparr>ki_title := replicate 501 CHR ''a''\<rparr>"

definition zero_stats :: ingest_stats where
  "zero_stats = \<lparr>st_fetched = 0, st_processed = 0, st_stored = 0, st_indexed = 0, st_skipped = 0\<rparr>"

text \<open>The table after \<open>first_entry\<close> has been ingested into the empty table.\<close>

definition store_with_first :: store where
  "store_with_first = \<lparr>rows = [first_entry\<lparr>ki_id := Some 0\<rparr>], next_id = 1\<rparr>"

section \<open>Rate limiter for AI calls (\<open>app/ai/rate_limit.py\<close>)\<close>

text \<open>
  The limiter's fields, and whether its \<open>asyncio.Lock\<close> is held. Times are the seconds of
  \<open>time.time()\<close>, as reals: sums and differences of times are exact here, where the
  code's floats round, so the two agree wherever the code's arithmetic is exact, as it is
  on the integral times of the examples below, and may part at a timestamp that lies on the
  edge of the window up to rounding.
\<close>

record ai_rate_limiter =
  max_requests :: int
  window_seconds :: real
  requests :: "real list"
  lock_held :: bool

text \<open>
  \<open>acquire\<close> called at time \<open>t\<close>, returning the limiter and the time at which the call
  returns; \<open>None\<close> is a call that never returns. \<open>asyncio.sleep(wait_seconds)\<close> moves the
  clock on by \<open>wait_seconds\<close>.

  The whole body runs inside \<open>async with self.lock\<close>, and \<open>asyncio.Lock\<close> is not
  reentrant: entering it while it is held suspends the caller until the holder releases
  it. The retry \<open>return await self.acquire()\<close> is made inside the block, so the holder is
  the suspended caller itself, the lock is never released, and the inner call never
  returns.
\<close>

function acquire :: "ai_rate_limiter \<Rightarrow> real \<Rightarrow> (ai_rate_limiter \<times> real) option" where
  "acquire self t =
     (if lock_held self then None
      else
        let now = t;
            window_start = now - window_seconds self;
            kept = filter (\<lambda>req_time. req_time > window_start) (requests self);
            locked = self\<lparr>requests := kept, lock_held := True\<rparr>
        in if int (length kept) < max_requests self
           then Some (locked\<lparr>requests := kept @ [now], lock_held := False\<rparr>, t)
           else if kept \<noteq> [] \<and> max 0 (Min (set kept) + window_seconds self - now) > 0
           then (case acquire locked (t + max 0 (Min (set kept) + window_seconds self - now)) of
                   None \<Rightarrow> None
                 | Some (self', t') \<Rightarrow> Some (self'\<lparr>lock_held := False\<rparr>, t'))
           else Some (locked\<lparr>requests := kept @ [t], lock_held := False\<rparr>, t))"
  by pat_completeness auto
termination
  by (relation "measure (\<lambda>(self, t). if lock_held self then 0 else 1)") auto

declare acquire.simps [simp del]

text \<open>A limiter of two requests per 60 seconds, as \<open>AIRateLimiter(2, 60)\<close> builds it.\<close>

definition limiter2 :: ai_rate_limiter where
  "limiter2 = \<lparr>max_requests = 2, window_seconds = 60, requests = [], lock_held = False\<rparr>"

section \<open>Rate limiter per domain (\<open>app/utils/rate_limit.py\<close>)\<close>

text \<open>
  The synchronous limiter of the HTTP client: \<open>requests\<close> maps a domain to its timestamps
  (a \<open>defaultdict(list)\<close>). The domain is given directly, in place of the URL it is read
  from.
\<close>

record rate_limiter =
  rl_max_requests :: int
  rl_window_seconds :: real
  rl_requests :: "string \<Rightarrow> real list"

definition can_make_request :: "rate_limiter \<Rightarrow> string \<Rightarrow> real \<Rightarrow> rate_limiter \<times> bool \<times> real" where
  "can_make_request self domain now =
     (let window_start = now - rl_window_seconds self;
          kept = filter (\<lambda>ts. ts > window_start) (rl_requests self domain);
          self' = self\<lparr>rl_requests := (rl_requests self)(domain := kept)\<rparr>
      in if int (length kept) < rl_max_requests self then (self', True, 0)
         else if kept \<noteq> []
         then (self', False, max 0 (Min (set kept) + rl_window_seconds self - now))
         else (self', True, 0))"

text \<open>\<open>wait_if_needed\<close>, returning the limiter and the time at which it returns.\<close>

definition wait_if_needed :: "rate_limiter \<Rightarrow> string \<Rightarrow> real \<Rightarrow> rate_limiter \<times> real" where
  "wait_if_needed self domain now =
     (case can_make_request self domain now of
        (self', can_request, wait_seconds) \<Rightarrow>
          if \<not> can_request then (self', now + wait_seconds) else (self', now))"

section \<open>Reading the provider's answer\<close>

text \<open>
  Both the enrichment task and the ask endpoint strip the answer, drop the lines of a
  Markdown code fence when the answer starts with one, and decode the rest as JSON.
\<close>

text \<open>\<open>s.split(c)\<close> for a one-character separator.\<close>

fun py_split :: "char \<Rightarrow> string \<Rightarrow> string list" where
  "py_split c [] = [[]]"
| "py_split c (x # xs) =
     (if x = c then [] # py_split c xs
      else (case py_split c xs of [] \<Rightarrow> [[x]] | l # ls \<Rightarrow> (x # l) # ls))"

definition newline :: char where
  "newline = CHR 0x0A"

definition strip_code_fences :: "string \<Rightarrow> string" where
  "strip_code_fences response_text =
     (let stripped = py_strip response_text
      in if py_startswith ''```'' stripped
         then py_join [newline]
                (filter (\<lambda>l. \<not> py_startswith ''```'' (py_strip l)) (py_split newline stripped))
         else stripped)"

text \<open>
  What \<open>json.loads\<close> makes of a text, as far as the callers tell the cases apart: it raises
  \<open>JSONDecodeError\<close>, or returns a value that is not a dictionary, or returns a dictionary,
  given by its fields. The decoder itself is a parameter of the functions below.
\<close>

datatype 'a json_result = NotJson | NotObject | JsonObject 'a

text \<open>
  \<open>enrichment_data = json.loads(response_text); enrichment = KnowledgeItemEnrichment(**enrichment_data)\<close>.
  Unpacking a value that is not a mapping with \<open>**\<close> raises \<open>TypeError\<close>.
\<close>

definition parse_enrichment ::
    "(string \<Rightarrow> enrichment_data json_result) \<Rightarrow> string \<Rightarrow> py_exception + knowledge_item_enrichment" where
  "parse_enrichment json_loads response_text =
     (case json_loads (strip_code_fences response_text) of
        NotJson \<Rightarrow> Inl JSONDecodeError
      | NotObject \<Rightarrow> Inl TypeError
      | JsonObject enrichment_data \<Rightarrow> KnowledgeItemEnrichment enrichment_data)"

text \<open>
  The exceptions an \<open>except (json.JSONDecodeError, ValueError)\<close> clause catches:
  \<open>JSONDecodeError\<close> and pydantic's \<open>ValidationError\<close> are subclasses of \<open>ValueError\<close>.
\<close>

definition is_value_error :: "py_exception \<Rightarrow> bool" where
  "is_value_error e \<longleftrightarrow> e = JSONDecodeError \<or> e = ValidationError \<or> e = ValueError"

section \<open>Enrichment task (\<open>app/tasks/enrich.py\<close>)\<close>

text \<open>
  \<open>self.retry(exc=e, countdown=60)\<close> of a Celery task declared with \<open>max_retries=3\<close>, on
  an attempt that follows \<open>retries\<close> earlier retries: it raises \<open>Retry\<close>, which reschedules
  the task after the countdown, or \<open>exc\<close> once the retries are used up.
\<close>

definition max_retries :: nat where
  "max_retries = 3"

definition task_retry :: "nat \<Rightarrow> py_exception \<Rightarrow> nat \<Rightarrow> py_exception" where
  "task_retry retries exc countdown = (if retries < max_retries then Retry countdown else exc)"

text \<open>The dictionaries the task returns.\<close>

datatype task_return = StatusError string | StatusSuccess

text \<open>
  The loop over \<open>enumerate(item.code_snippets or [])\<close>: a snippet takes the enrichment
  entry at its own position, if there is one.
\<close>

fun merge_snippets :: "code_snippet list \<Rightarrow> code_snippet_enrichment list \<Rightarrow> code_snippet list" where
  "merge_snippets [] es = []"
| "merge_snippets (s # ss) [] = s # merge_snippets ss []"
| "merge_snippets (s # ss) (e # es) =
     s\<lparr>sn_intent := Some (se_intent e), sn_dependencies := Some (se_dependencies e),
       sn_pitfalls := Some (se_pitfalls e)\<rparr> # merge_snippets ss es"

text \<open>
  \<open>enrich_knowledge_item\<close>, as a function of what its environment does: \<open>retries\<close> is
  \<open>self.request.retries\<close>; \<open>py_str\<close> gives the text \<open>str(e)\<close> of an exception;
  \<open>item_row\<close> is the row the query by id finds; \<open>loop_running\<close> is \<open>loop.is_running()\<close>,
  \<open>rate_limiter\<close> the limiter chosen and \<open>t\<close> the time at which it is asked;
  \<open>ai_result\<close> is the outcome of \<open>provider.generate_text\<close> (its text, or the exception it
  raised); \<open>commit_ok\<close> tells whether \<open>db.commit()\<close> succeeds and \<open>now\<close> is the time of
  \<open>datetime.utcnow()\<close>. The result is \<open>None\<close> when the task never returns (the wait for the
  rate limiter does not end); otherwise it is what the task returns or raises, and the row
  as it is stored afterwards. An exception that reaches the outer \<open>except\<close> rolls the
  session back and is raised again.
\<close>

definition enrich_knowledge_item ::
    "nat \<Rightarrow> (py_exception \<Rightarrow> string) \<Rightarrow> (string \<Rightarrow> enrichment_data json_result) \<Rightarrow> bool \<Rightarrow>
     bool \<Rightarrow> ai_rate_limiter \<Rightarrow> real \<Rightarrow> py_exception + string \<Rightarrow> bool \<Rightarrow> nat \<Rightarrow>
     knowledge_item option \<Rightarrow> ((py_exception + task_return) \<times> knowledge_item option) option" where
  "enrich_knowledge_item retries py_str json_loads provider_available loop_running rate_limiter t
       ai_result commit_ok now item_row =
     (case item_row of
        None \<Rightarrow> Some (Inr (StatusError ''Item not found''), None)
      | Some item \<Rightarrow>
          if \<not> provider_available
          then Some (Inr (StatusError ''AI provider not configured''), Some item)
          else if \<not> loop_running \<and> acquire rate_limiter t = None
          then None
          else
            (case ai_result of
               Inl e \<Rightarrow> Some (Inl (task_retry retries e 60), Some item)
             | Inr response_text \<Rightarrow>
                 (case parse_enrichment json_loads response_text of
                    Inl e \<Rightarrow>
                      if is_value_error e
                      then Some (Inr (StatusError (''Failed to parse AI response: '' @ py_str e)),
                                 Some item)
                      else Some (Inl e, Some item)
                  | Inr enrichment \<Rightarrow>
                      let updated =
                            item\<lparr>ki_ai_summary := Some (en_summary enrichment),
                                 ki_ai_tags := Some (en_tags enrichment),
                                 ki_ai_primary_language := en_primary_language enrichment,
                                 ki_ai_framework := en_framework enrichment,
                                 ki_ai_quality_score := Some (en_quality_score enrichment),
                                 ki_ai_extracted_at := Some now,
                                 ki_code_snippets :=
                                   merge_snippets (ki_code_snippets item)
                                     (en_code_snippets enrichment)\<rparr>
                      in if commit_ok then Some (Inr StatusSuccess, Some updated)
                         else Some (Inl CommitError, Some item))))"

text \<open>
  The AI fields of a row are all unset, with no time stamp, or the summary, the tags and
  the quality score are set and the time stamp with them (the language and the framework
  are optional in the schema).
\<close>

definition ai_fields_together :: "knowledge_item \<Rightarrow> bool" where
  "ai_fields_together item \<longleftrightarrow>
     (ki_ai_extracted_at item = None \<and> ki_ai_summary item = None \<and> ki_ai_tags item = None \<and>
      ki_ai_primary_language item = None \<and> ki_ai_framework item = None \<and>
      ki_ai_quality_score item = None) \<or>
     (ki_ai_extracted_at item \<noteq> None \<and> ki_ai_summary item \<noteq> None \<and> ki_ai_tags item \<noteq> None \<and>
      ki_ai_quality_score item \<noteq> None)"

text \<open>
  A decoder on four answers: an object with a summary, two tags and a score, the same
  object with the score 1.5, an empty array, and any other text, taken not to be JSON.
  \<open>dq\<close> puts a text in double quotes.
\<close>

definition dq :: "string \<Rightarrow> string" where
  "dq s = [CHR 0x22] @ s @ [CHR 0x22]"

definition good_answer :: string where
  "good_answer =
     ''{'' @ dq ''summary'' @ '': '' @ dq ''Test'' @ '', '' @ dq ''tags'' @ '': [''
       @ dq ''Python'' @ '', '' @ dq ''React.js'' @ ''], '' @ dq ''quality_score'' @ '': 0.5}''"

definition overrated_answer :: string where
  "overrated_answer =
     ''{'' @ dq ''summary'' @ '': '' @ dq ''Test'' @ '', '' @ dq ''tags'' @ '': [''
       @ dq ''Python'' @ '', '' @ dq ''React.js'' @ ''], '' @ dq ''quality_score'' @ '': 1.5}''"

definition sample_loads :: "string \<Rightarrow> enrichment_data json_result" where
  "sample_loads text =
     (if text = good_answer
      then JsonObject \<lparr>ed_summary = Some ''Test'', ed_tags = Some [''Python'', ''React.js''],
                       ed_primary_language = None, ed_framework = None,
                       ed_quality_score = Some (1 / 2), ed_code_snippets = None\<rparr>
      else if text = overrated_answer
      then JsonObject \<lparr>ed_summary = Some ''Test'', ed_tags = Some [''Python'', ''React.js''],
                       ed_primary_language = None, ed_framework = None,
                       ed_quality_score = Some (3 / 2), ed_code_snippets = None\<rparr>
      else if text = ''[]'' then NotObject
      else NotJson)"

text \<open>
  Texts for the exceptions of the examples: the message of \<open>json.loads\<close> on a text that
  does not start a JSON value, and a short text in place of pydantic's report.
\<close>

definition sample_str :: "py_exception \<Rightarrow> string" where
  "sample_str e =
     (if e = JSONDecodeError then ''Expecting value: line 1 column 1 (char 0)''
      else if e = ValidationError then ''1 validation error for KnowledgeItemEnrichment''
      else ''error'')"

text \<open>The row of \<open>first_entry\<close> as stored, before any enrichment.\<close>

definition stored_first :: knowledge_item where
  "stored_first = first_entry\<lparr>ki_id := Some 0\<rparr>"

section \<open>Question answering (\<open>app/api/ask.py\<close>)\<close>

text \<open>An item as the search returns it: a dictionary, read with \<open>item.get(key, default)\<close>.\<close>

record search_hit =
  h_id :: "string option"
  h_title :: "string option"
  h_source_url :: "string option"
  h_source_name :: "string option"

record citation =
  c_number :: nat
  c_title :: string
  c_source_url :: string
  c_source_name :: string
  c_id :: string

text \<open>The keyword arguments of \<open>AskResponse(**answer_data)\<close>, and the validated object.\<close>

record ask_data =
  ad_answer :: "string option"
  ad_confidence :: "real option"

record ask_response =
  as_answer :: string
  as_confidence :: real

text \<open>The dictionary \<open>ask_question\<close> returns.\<close>

record ask_result =
  ar_answer :: string
  ar_confidence :: real
  ar_citations :: "citation list"
  ar_matched_items :: "search_hit list"

text \<open>The calls made to the AI provider, in order.\<close>

datatype provider_call = GenerateEmbedding string | GenerateText string

text \<open>\<open>AskResponse\<close>: both fields are required, the confidence lies in \<open>[0, 1]\<close>.\<close>

definition AskResponse :: "ask_data \<Rightarrow> py_exception + ask_response" where
  "AskResponse d =
     (case (ad_answer d, ad_confidence d) of
        (Some a, Some c) \<Rightarrow>
          if 0 \<le> c \<and> c \<le> 1 then Inr \<lparr>as_answer = a, as_confidence = c\<rparr>
          else Inl ValidationError
      | _ \<Rightarrow> Inl ValidationError)"

text \<open>
  \<open>answer_data = json.loads(response_text); answer_obj = AskResponse(**answer_data)\<close>
\<close>

definition parse_answer ::
    "(string \<Rightarrow> ask_data json_result) \<Rightarrow> string \<Rightarrow> py_exception + ask_response" where
  "parse_answer json_loads response_text =
     (case json_loads (strip_code_fences response_text) of
        NotJson \<Rightarrow> Inl JSONDecodeError
      | NotObject \<Rightarrow> Inl TypeError
      | JsonObject answer_data \<Rightarrow> AskResponse answer_data)"

definition no_information :: string where
  "no_information =
     ''I couldn't find any relevant information to answer your question. Please try rephrasing or adjusting your search filters.''"

definition fallback_answer :: ask_response where
  "fallback_answer =
     \<lparr>as_answer = ''I found relevant information, but encountered an error formatting the response.'',
      as_confidence = 1 / 2\<rparr>"

text \<open>The citations: \<open>for idx, item in enumerate(items, 1)\<close>.\<close>

definition build_citations :: "search_hit list \<Rightarrow> citation list" where
  "build_citations items =
     map (\<lambda>(idx, item).
            \<lparr>c_number = idx,
             c_title = (case h_title item of None \<Rightarrow> ''Untitled'' | Some v \<Rightarrow> v),
             c_source_url = py_or_empty (h_source_url item),
             c_source_name = py_or_empty (h_source_name item),
             c_id = py_or_empty (h_id item)\<rparr>)
         (zip [1..<Suc (length items)] items)"

text \<open>
  \<open>ask_question\<close>, as a function of what its environment does: whether a provider is
  configured; \<open>generate_embedding\<close> and \<open>generate_text\<close>, the provider's two calls, which
  return a value or raise; \<open>search\<close>, the call of \<open>search_knowledge_items\<close> with the question
  and the filters, as a function of the mode, the embedding and the size; \<open>get_ask_prompt\<close>;
  the rate limiter and the time; and the JSON decoder. The result is \<open>None\<close> when the call
  never returns; otherwise it is what the function returns or raises, with the calls made
  to the provider.

  When \<open>generate_text\<close> raises a \<open>ValueError\<close>, the first \<open>except\<close> clause catches it and
  reads \<open>response_text\<close>, which has not been assigned: \<open>UnboundLocalError\<close> is raised. Any
  other exception is raised again by the second clause.
\<close>

definition ask_question ::
    "bool \<Rightarrow> (string \<Rightarrow> py_exception + real list) \<Rightarrow>
     (bool \<Rightarrow> real list option \<Rightarrow> nat \<Rightarrow> py_exception + search_hit list) \<Rightarrow>
     (string \<Rightarrow> search_hit list \<Rightarrow> string) \<Rightarrow> ai_rate_limiter \<Rightarrow> real \<Rightarrow>
     (string \<Rightarrow> py_exception + string) \<Rightarrow> (string \<Rightarrow> ask_data json_result) \<Rightarrow>
     string \<Rightarrow> nat \<Rightarrow> bool \<Rightarrow> ((py_exception + ask_result) \<times> provider_call list) option" where
  "ask_question provider_available generate_embedding search get_ask_prompt rate_limiter t
       generate_text json_loads question top_k semantic =
     (if \<not> provider_available then Some (Inl ValueError, [])
      else
        let (query_embedding, semantic', calls) =
              (if semantic then
                 (case generate_embedding question of
                    Inl e \<Rightarrow> (None, False, [GenerateEmbedding question])
                  | Inr v \<Rightarrow> (Some v, True, [GenerateEmbedding question]))
               else (None, False, []))
        in case search semantic' query_embedding top_k of
             Inl e \<Rightarrow> Some (Inl e, calls)
           | Inr items \<Rightarrow>
               if items = []
               then Some (Inr \<lparr>ar_answer = no_information, ar_confidence = 0,
                                ar_citations = [], ar_matched_items = []\<rparr>, calls)
               else
                 let prompt = get_ask_prompt question items;
                     respond = (\<lambda>answer_obj.
                       Inr \<lparr>ar_answer = as_answer answer_obj,
                            ar_confidence = as_confidence answer_obj,
                            ar_citations = build_citations items,
                            ar_matched_items = take top_k items\<rparr>)
                 in case acquire rate_limiter t of
                      None \<Rightarrow> None
                    | Some acquired \<Rightarrow>
                        (case generate_text prompt of
                           Inl e \<Rightarrow>
                             if is_value_error e
                             then Some (Inl UnboundLocalError, calls @ [GenerateText prompt])
                             else Some (Inl e, calls @ [GenerateText prompt])
                         | Inr response_text \<Rightarrow>
                             (case parse_answer json_loads response_text of
                                Inl e \<Rightarrow>
                                  if is_value_error e
                                  then Some (respond fallback_answer, calls @ [GenerateText prompt])
                                  else Some (Inl e, calls @ [GenerateText prompt])
                              | Inr answer_obj \<Rightarrow>
                                  Some (respond answer_obj, calls @ [GenerateText prompt]))))"

text \<open>
  An environment for one question: the embedding call fails, the search finds one item,
  the prompt is the question, the provider answers with an empty JSON array, which the
  decoder returns as a value that is not a dictionary.
\<close>

definition one_hit :: search_hit where
  "one_hit = \<lparr>h_id = Some ''1'', h_title = Some ''Post'', h_source_url = Some ''http://x.com/a'',
              h_source_name = Some ''feed''\<rparr>"

definition sample_embedding :: "string \<Rightarrow> py_exception + real list" where
  "sample_embedding question = Inl ApiError"

definition sample_search :: "bool \<Rightarrow> real list option \<Rightarrow> nat \<Rightarrow> py_exception + search_hit list" where
  "sample_search semantic query_embedding sz = Inr [one_hit]"

definition sample_prompt :: "string \<Rightarrow> search_hit list \<Rightarrow> string" where
  "sample_prompt question items = question"

definition array_answer :: "string \<Rightarrow> py_exception + string" where
  "array_answer prompt = Inr ''[]''"

definition sample_loads_answer :: "string \<Rightarrow> ask_data json_result" where
  "sample_loads_answer answer = (if answer = ''[]'' then NotObject else NotJson)"

section \<open>Properties of the deduplication keys\<close>

lemma py_rstrip_decompose: "\<exists>n. s = py_rstrip [c] s @ replicate n c"
proof -
  have "rev s = takeWhile (\<lambda>x. x = c) (rev s) @ dropWhile (\<lambda>x. x = c) (rev s)"
    by simp
  moreover have "takeWhile (\<lambda>x. x = c) (rev s) = replicate (length (takeWhile (\<lambda>x. x = c) (rev s))) c"
    by (rule replicate_length_same [symmetric]) (auto dest: set_takeWhileD)
  ultimately have "rev s = replicate (length (takeWhile (\<lambda>x. x = c) (rev s))) c @ dropWhile (\<lambda>x. x = c) (rev s)"
    by simp
  then have "rev (rev s) = rev (replicate (length (takeWhile (\<lambda>x. x = c) (rev s))) c @ dropWhile (\<lambda>x. x = c) (rev s))"
    by (rule arg_cong)
  then show ?thesis
    by (auto simp: py_rstrip_def)
qed

lemma py_rstrip_last: "py_rstrip [c] s = [] \<or> last (py_rstrip [c] s) \<noteq> c"
proof (cases "dropWhile (\<lambda>x. x = c) (rev s)")
  case Nil
  then show ?thesis by (simp add: py_rstrip_def)
next
  case (Cons y ys)
  then have "y \<noteq> c"
    using hd_dropWhile [of "\<lambda>x. x = c" "rev s"] by auto
  with Cons show ?thesis by (simp add: py_rstrip_def)
qed

lemma dropWhile_replicate_same:
  "dropWhile (\<lambda>x. x = c) (replicate n c @ xs) = dropWhile (\<lambda>x. x = c) xs"
  by (induction n) simp_all

lemma py_rstrip_replicate: "py_rstrip [c] (b @ replicate n c) = py_rstrip [c] b"
  by (simp add: py_rstrip_def dropWhile_replicate_same)

lemma lower_shift_not_slash: "65 \<le> n \<Longrightarrow> n < 256 \<Longrightarrow> (n + 32) mod 256 \<noteq> (47::nat)"
proof (cases "n + 32 < 256")
  case True
  assume "65 \<le> n"
  with True show ?thesis by simp
next
  case False
  assume "n < 256"
  with False have "(n + 32) mod 256 = n + 32 - 256"
    by (simp add: le_mod_geq)
  with \<open>n < 256\<close> show ?thesis by simp
qed

lemma py_lower_char_slash: "py_lower_char c = CHR ''/'' \<longleftrightarrow> c = CHR ''/''"
proof -
  have neq: "char_of (of_char c + (32::nat)) \<noteq> CHR ''/''" if "65 \<le> (of_char c :: nat)"
  proof
    assume "char_of (of_char c + (32::nat)) = CHR ''/''"
    then have "(of_char (char_of (of_char c + (32::nat))) :: nat) = of_char CHR ''/''"
      by (rule arg_cong)
    then have "(of_char c + 32) mod 256 = (47::nat)"
      by simp
    moreover have "(of_char c :: nat) < 256" by simp
    ultimately show False using lower_shift_not_slash [OF that] by blast
  qed
  have c47: "(of_char c :: nat) = 47" if "c = CHR ''/''"
    using that by simp
  show ?thesis
  proof (cases "65 \<le> (of_char c :: nat)")
    case True
    then have "c \<noteq> CHR ''/''" using c47 by auto
    then show ?thesis using neq [OF True] by (simp add: py_lower_char_def Let_def)
  next
    case False
    then show ?thesis by (simp add: py_lower_char_def Let_def)
  qed
qed

lemma py_rstrip_lower: "py_rstrip ''/'' (py_lower s) = py_lower (py_rstrip ''/'' s)"
proof -
  have "dropWhile (\<lambda>c. c = CHR ''/'') (map py_lower_char xs)
        = map py_lower_char (dropWhile (\<lambda>c. c = CHR ''/'') xs)" for xs
    by (induction xs) (simp_all add: py_lower_char_slash)
  then show ?thesis
    by (simp add: py_rstrip_def py_lower_def rev_map)
qed

lemma length_hex32: "length (hex32 w) = 8"
  by (simp add: hex32_def)

lemma length_sha256_hexdigest: "length (sha256_hexdigest m) = 64"
  by (cases "sha256 m" rule: hex_state.cases) (simp add: sha256_hexdigest_def length_hex32)

text \<open>
  C1. For every source type and URL, \<open>generate_dedupe_key\<close> returns
  \<open>"{source_type}::{normalized_url}"\<close>, where the normalized URL is the URL without its
  trailing slashes, lower-cased, unless that string is longer than 500 characters, in which
  case it returns the SHA-256 hex digest of the string; so two URLs that differ only by
  trailing slashes or letter case get the same key.
\<close>

theorem generate_dedupe_key_normalized:
  "(\<exists>base n. source_url = base @ replicate n CHR ''/'' \<and> (base = [] \<or> last base \<noteq> CHR ''/'') \<and>
      generate_dedupe_key source_type source_url =
        (if length (source_type @ ''::'' @ py_lower base) > 500
         then sha256_hexdigest (py_encode (source_type @ ''::'' @ py_lower base))
         else source_type @ ''::'' @ py_lower base)) \<and>
   (\<forall>url1 url2 n1 n2. py_lower url1 = py_lower url2 \<longrightarrow>
      generate_dedupe_key source_type (url1 @ replicate n1 CHR ''/'')
        = generate_dedupe_key source_type (url2 @ replicate n2 CHR ''/''))"
proof (intro conjI allI impI)
  obtain n where n: "source_url = py_rstrip ''/'' source_url @ replicate n CHR ''/''"
    using py_rstrip_decompose [of source_url "CHR ''/''"] by blast
  have "py_rstrip ''/'' source_url = [] \<or> last (py_rstrip ''/'' source_url) \<noteq> CHR ''/''"
    by (rule py_rstrip_last)
  moreover have "generate_dedupe_key source_type source_url =
        (if length (source_type @ ''::'' @ py_lower (py_rstrip ''/'' source_url)) > 500
         then sha256_hexdigest (py_encode (source_type @ ''::'' @ py_lower (py_rstrip ''/'' source_url)))
         else source_type @ ''::'' @ py_lower (py_rstrip ''/'' source_url))"
    by (simp add: generate_dedupe_key_def Let_def)
  ultimately show "\<exists>base n. source_url = base @ replicate n CHR ''/'' \<and>
      (base = [] \<or> last base \<noteq> CHR ''/'') \<and>
      generate_dedupe_key source_type source_url =
        (if length (source_type @ ''::'' @ py_lower base) > 500
         then sha256_hexdigest (py_encode (source_type @ ''::'' @ py_lower base))
         else source_type @ ''::'' @ py_lower base)"
    using n by blast
next
  fix url1 url2 :: string and n1 n2 :: nat
  assume eq: "py_lower url1 = py_lower url2"
  have "py_lower (py_rstrip ''/'' url1) = py_lower (py_rstrip ''/'' url2)"
    using eq by (simp add: py_rstrip_lower [symmetric])
  then show "generate_dedupe_key source_type (url1 @ replicate n1 CHR ''/'')
        = generate_dedupe_key source_type (url2 @ replicate n2 CHR ''/'')"
    by (simp add: generate_dedupe_key_def py_rstrip_replicate)
qed

theorem generate_dedupe_key_normalized_witness:
  "py_lower ''http://X.com/A'' = py_lower ''http://x.com/a'' \<and>
   generate_dedupe_key ''rss'' (''http://X.com/A'' @ replicate 2 CHR ''/'')
     = generate_dedupe_key ''rss'' (''http://x.com/a'' @ replicate 0 CHR ''/'') \<and>
   generate_dedupe_key ''rss'' ''http://x.com/a/'' = ''rss::http://x.com/a''"
proof -
  have low: "py_lower ''http://X.com/A'' = py_lower ''http://x.com/a''"
    by (simp add: py_lower_def py_lower_char_def char_of_eq_iff)
  have key: "generate_dedupe_key ''rss'' ''http://x.com/a/'' = ''rss::http://x.com/a''"
    by (simp add: generate_dedupe_key_def py_rstrip_def py_lower_def py_lower_char_def)
  from generate_dedupe_key_normalized [of "''http://x.com/a/''" "''rss''"] low key
  show ?thesis by blast
qed

text \<open>
  C10. For every source type and URL the key returned by \<open>generate_dedupe_key\<close> has at
  most 500 characters: it is the key string itself when that has at most 500 characters,
  and a SHA-256 hex digest of 64 characters otherwise; so it fits the column
  \<open>dedupe_key = Column(String(500))\<close>.
\<close>

theorem generate_dedupe_key_length:
  "length (generate_dedupe_key source_type source_url) \<le> 500 \<and>
   (if length (source_type @ ''::'' @ py_lower (py_rstrip ''/'' source_url)) \<le> 500
    then generate_dedupe_key source_type source_url
           = source_type @ ''::'' @ py_lower (py_rstrip ''/'' source_url)
    else length (generate_dedupe_key source_type source_url) = 64)"
  by (simp add: generate_dedupe_key_def Let_def length_sha256_hexdigest)

section \<open>Properties of the content hash\<close>

lemma py_contains_append: "py_contains sub (p @ sub @ q)"
proof (induction p)
  case Nil
  show ?case
  proof (cases "sub @ q")
    case Nil
    then show ?thesis by simp
  next
    case (Cons a as)
    have "py_startswith sub (sub @ q)"
      by (simp add: py_startswith_def)
    with Cons show ?thesis by simp
  qed
next
  case (Cons a p)
  then show ?case by simp
qed

lemma py_endswith_last: "py_endswith [c] s \<longleftrightarrow> s \<noteq> [] \<and> last s = c"
  by (cases s rule: rev_cases) (auto simp: py_endswith_def)

text \<open>
  A separator made of one repeated character cannot start inside a part that neither
  contains it nor ends with that character.
\<close>

lemma separator_overlap:
  assumes "sep \<noteq> []" and "set sep \<subseteq> {c}"
    and "\<not> py_contains sep (x @ d)" and "\<not> py_endswith [c] (x @ d)"
    and eq: "sep @ r = d @ sep @ r'"
  shows "d = []"
proof (rule ccontr)
  assume d: "d \<noteq> []"
  show False
  proof (cases "length sep \<le> length d")
    case True
    from eq have "take (length sep) (sep @ r) = take (length sep) (d @ sep @ r')"
      by (rule arg_cong)
    with True have "take (length sep) d = sep"
      by simp
    then obtain d' where d': "d = sep @ d'"
      by (metis append_take_drop_id)
    have "py_contains sep (x @ d)"
      unfolding d' by (rule py_contains_append)
    with assms(3) show False ..
  next
    case False
    from eq have "take (length d) (sep @ r) = take (length d) (d @ sep @ r')"
      by (rule arg_cong)
    with False have "take (length d) sep = d"
      by simp
    then have "set d \<subseteq> set sep"
      using set_take_subset [of "length d" sep] by simp
    moreover from d have "last d \<in> set d"
      by (rule last_in_set)
    ultimately have "last d = c"
      using assms(2) by blast
    with d have "py_endswith [c] (x @ d)"
      by (simp add: py_endswith_last)
    with assms(4) show False ..
  qed
qed

lemma split_at_separator:
  assumes "sep \<noteq> []" and "set sep \<subseteq> {c}"
    and "\<not> py_contains sep x" and "\<not> py_endswith [c] x"
    and "\<not> py_contains sep x'" and "\<not> py_endswith [c] x'"
    and eq: "x @ sep @ r = x' @ sep @ r'"
  shows "x = x' \<and> r = r'"
proof -
  from eq have "\<exists>d. x = x' @ d \<and> d @ sep @ r = sep @ r' \<or> x @ d = x' \<and> sep @ r = d @ sep @ r'"
    by (simp only: append_eq_append_conv2 [of x "sep @ r" x' "sep @ r'"])
  then consider d where "x = x' @ d" "d @ sep @ r = sep @ r'"
    | d where "x @ d = x'" "sep @ r = d @ sep @ r'"
    by blast
  then show ?thesis
  proof cases
    case 1
    from assms(3,4) 1(1) have "\<not> py_contains sep (x' @ d)" "\<not> py_endswith [c] (x' @ d)"
      by simp_all
    from separator_overlap [OF assms(1,2) this 1(2) [symmetric]] 1 show ?thesis
      by simp
  next
    case 2
    from assms(5,6) 2(1) have "\<not> py_contains sep (x @ d)" "\<not> py_endswith [c] (x @ d)"
      by simp_all
    from separator_overlap [OF assms(1,2) this 2(2)] 2 show ?thesis
      by simp
  qed
qed

lemma bar_split:
  assumes "bar_safe x" "bar_safe y" "x @ ''|||'' @ r = y @ ''|||'' @ r'"
  shows "x = y \<and> r = r'"
  using assms
  by (intro split_at_separator [of "''|||''" "CHR ''|''" x y r r']) (simp_all add: bar_safe_def)

lemma colon_split:
  assumes "colon_safe x" "colon_safe y" "x @ ''::'' @ r = y @ ''::'' @ r'"
  shows "x = y \<and> r = r'"
  using assms
  by (intro split_at_separator [of "''::''" "CHR '':''" x y r r']) (simp_all add: colon_safe_def)

lemma py_join_Cons:
  "py_join sep (x # xs) = x @ (if xs = [] then [] else sep @ py_join sep xs)"
  by (cases xs) simp_all

lemma py_join_bar_inj:
  "\<forall>x \<in> set xs. bar_safe x \<Longrightarrow> \<forall>y \<in> set ys. bar_safe y \<Longrightarrow>
   xs \<noteq> [] \<Longrightarrow> ys \<noteq> [] \<Longrightarrow> py_join ''|||'' xs = py_join ''|||'' ys \<Longrightarrow> xs = ys"
proof (induction xs arbitrary: ys)
  case Nil
  then show ?case by simp
next
  case (Cons x xs)
  from Cons.prems obtain y ys' where ys: "ys = y # ys'"
    by (cases ys) auto
  from Cons.prems ys have nx: "bar_safe x" and ny: "bar_safe y"
    by auto
  from Cons.prems(5) ys
  have eq: "x @ (if xs = [] then [] else ''|||'' @ py_join ''|||'' xs)
          = y @ (if ys' = [] then [] else ''|||'' @ py_join ''|||'' ys')"
    by (simp only: py_join_Cons)
  show ?case
  proof (cases "xs = []")
    case xs_nil: True
    show ?thesis
    proof (cases "ys' = []")
      case True
      with eq ys xs_nil show ?thesis by simp
    next
      case False
      with eq xs_nil have "x = y @ ''|||'' @ py_join ''|||'' ys'"
        by simp
      then have "py_contains ''|||'' x"
        using py_contains_append [of "''|||''" y "py_join ''|||'' ys'"] by simp
      with nx show ?thesis by (simp add: bar_safe_def)
    qed
  next
    case xs_cons: False
    show ?thesis
    proof (cases "ys' = []")
      case True
      with eq xs_cons have "y = x @ ''|||'' @ py_join ''|||'' xs"
        by simp
      then have "py_contains ''|||'' y"
        using py_contains_append [of "''|||''" x "py_join ''|||'' xs"] by simp
      with ny show ?thesis by (simp add: bar_safe_def)
    next
      case ys_cons: False
      with eq xs_cons
      have "x @ ''|||'' @ py_join ''|||'' xs = y @ ''|||'' @ py_join ''|||'' ys'"
        by simp
      from bar_split [OF nx ny this]
      have xy: "x = y" and rest: "py_join ''|||'' xs = py_join ''|||'' ys'"
        by simp_all
      have "xs = ys'"
      proof (rule Cons.IH [OF _ _ _ _ rest])
        show "\<forall>x \<in> set xs. bar_safe x" using Cons.prems(1) by simp
        show "\<forall>y \<in> set ys'. bar_safe y" using Cons.prems(2) ys by simp
        show "xs \<noteq> []" using xs_cons by simp
        show "ys' \<noteq> []" using ys_cons by simp
      qed
      with xy ys show ?thesis by simp
    qed
  qed
qed

text \<open>Two joins that differ in one part only are different strings, whatever the parts.\<close>

lemma py_join_change_one:
  "py_join sep (ps @ x # qs) = py_join sep (ps @ x' # qs) \<Longrightarrow> x = x'"
proof (induction ps)
  case Nil
  then show ?case by (simp add: py_join_Cons)
next
  case (Cons p ps)
  then show ?case by (simp add: py_join_Cons)
qed

lemma snippet_str_inj:
  assumes "colon_safe (fst (language_code s))" "colon_safe (fst (language_code t))"
    and "snippet_str s = snippet_str t"
  shows "language_code s = language_code t"
proof -
  from assms(3)
  have "py_or_empty (sn_language s) @ ''::'' @ py_or_empty (sn_code s)
          = py_or_empty (sn_language t) @ ''::'' @ py_or_empty (sn_code t)"
    by (simp only: snippet_str_def)
  from colon_split [OF _ _ this] assms(1,2) show ?thesis
    by (simp add: language_code_def)
qed

text \<open>A snippet whose language alone, or whose code alone, changes has another string.\<close>

lemma snippet_str_change_one:
  assumes "language_code s \<noteq> language_code t"
    and "fst (language_code s) = fst (language_code t) \<or>
         snd (language_code s) = snd (language_code t)"
  shows "snippet_str s \<noteq> snippet_str t"
  using assms by (auto simp: language_code_def snippet_str_def)

lemma snippet_str_language_code:
  "language_code s = language_code t \<Longrightarrow> snippet_str s = snippet_str t"
  by (simp add: language_code_def snippet_str_def)

lemma map_snippet_str_cong:
  assumes "map language_code ss = map language_code ts"
  shows "map snippet_str ss = map snippet_str ts"
proof -
  have via: "map snippet_str xs = map (\<lambda>p. fst p @ ''::'' @ snd p) (map language_code xs)" for xs
    by (simp add: snippet_str_def language_code_def)
  from assms
  have "map (\<lambda>p. fst p @ ''::'' @ snd p) (map language_code ss)
          = map (\<lambda>p. fst p @ ''::'' @ snd p) (map language_code ts)"
    by (rule arg_cong)
  then show ?thesis by (simp only: via)
qed

lemma map_snippet_str_inj:
  "\<forall>s \<in> set ss. colon_safe (fst (language_code s)) \<Longrightarrow>
   \<forall>t \<in> set ts. colon_safe (fst (language_code t)) \<Longrightarrow>
   map snippet_str ss = map snippet_str ts \<Longrightarrow> map language_code ss = map language_code ts"
proof (induction ss arbitrary: ts)
  case Nil
  then show ?case by simp
next
  case (Cons s ss)
  then show ?case by (cases ts) (auto dest: snippet_str_inj)
qed

lemma content_string_inj:
  assumes "delimiter_free title body snips" "delimiter_free title' body' snips'"
    and eq: "content_string title body snips = content_string title' body' snips'"
  shows "py_or_empty title = py_or_empty title' \<and> py_or_empty body = py_or_empty body' \<and>
         map language_code (py_or_nil snips) = map language_code (py_or_nil snips')"
proof -
  let ?xs = "[py_or_empty title, py_or_empty body] @ map snippet_str (py_or_nil snips)"
  let ?ys = "[py_or_empty title', py_or_empty body'] @ map snippet_str (py_or_nil snips')"
  have "\<forall>x \<in> set ?xs. bar_safe x"
    using assms(1) by (auto simp: delimiter_free_def)
  moreover have "\<forall>y \<in> set ?ys. bar_safe y"
    using assms(2) by (auto simp: delimiter_free_def)
  moreover have "py_join ''|||'' ?xs = py_join ''|||'' ?ys"
    using eq by (simp only: content_string_def)
  ultimately have "?xs = ?ys"
    by (intro py_join_bar_inj) simp_all
  then have "py_or_empty title = py_or_empty title'" "py_or_empty body = py_or_empty body'"
    and "map snippet_str (py_or_nil snips) = map snippet_str (py_or_nil snips')"
    by simp_all
  moreover have "map language_code (py_or_nil snips) = map language_code (py_or_nil snips')"
    using assms(1,2) calculation(3)
    by (intro map_snippet_str_inj) (auto simp: delimiter_free_def)
  ultimately show ?thesis by simp
qed

lemma content_string_title:
  assumes "content_string title body snips = content_string title' body snips"
  shows "py_or_empty title = py_or_empty title'"
  using assms py_join_change_one [of "''|||''" "[]" "py_or_empty title"
      "py_or_empty body # map snippet_str (py_or_nil snips)" "py_or_empty title'"]
  by (simp only: content_string_def append_Cons append_Nil)

lemma content_string_body:
  assumes "content_string title body snips = content_string title body' snips"
  shows "py_or_empty body = py_or_empty body'"
  using assms py_join_change_one [of "''|||''" "[py_or_empty title]" "py_or_empty body"
      "map snippet_str (py_or_nil snips)" "py_or_empty body'"]
  by (simp only: content_string_def append_Cons append_Nil)

lemma content_string_snippet:
  assumes "content_string title body (Some (pre @ s # post))
             = content_string title body (Some (pre @ t # post))"
  shows "snippet_str s = snippet_str t"
proof -
  have parts: "[py_or_empty title, py_or_empty body] @ map snippet_str (pre @ u # post)
      = ([py_or_empty title, py_or_empty body] @ map snippet_str pre) @ snippet_str u
          # map snippet_str post" for u
    by simp
  from assms
  have "py_join ''|||'' (([py_or_empty title, py_or_empty body] @ map snippet_str pre)
            @ snippet_str s # map snippet_str post)
      = py_join ''|||'' (([py_or_empty title, py_or_empty body] @ map snippet_str pre)
            @ snippet_str t # map snippet_str post)"
    unfolding content_string_def py_or_nil_def option.case parts .
  then show ?thesis
    by (rule py_join_change_one)
qed

text \<open>
  C2, as the code has it. \<open>generate_content_hash\<close> is the SHA-256 hex digest of the title, the
  body text and one \<open>"{language}::{code}"\<close> string per snippet, joined by \<open>|||\<close>. It reads
  nothing but the title, the body text and each snippet's (language, code) pair, so two
  inputs that agree on these get the same digest, whatever the snippets' other fields.

  The digest is taken from a different string

  \<^item> under any change of the title alone, of the body text alone, or of the language alone
    or the code alone of one snippet, whatever the texts contain;
  \<^item> under any change at all of the title, the body text or the (language, code) pairs,
    between inputs in which no hashed part contains \<open>|||\<close> or ends with \<open>|\<close> and no
    language contains \<open>::\<close> or ends with \<open>:\<close>.

  What is left out are changes of several parts at once that move a separator from one
  part into another.
\<close>

theorem generate_content_hash_fields:
  "generate_content_hash title body snips
     = sha256_hexdigest (py_encode (content_string title body snips)) \<and>
   (py_or_empty title = py_or_empty title' \<and> py_or_empty body = py_or_empty body' \<and>
    map language_code (py_or_nil snips) = map language_code (py_or_nil snips')
    \<longrightarrow> generate_content_hash title body snips = generate_content_hash title' body' snips') \<and>
   (py_or_empty title \<noteq> py_or_empty title'
    \<longrightarrow> content_string title body snips \<noteq> content_string title' body snips) \<and>
   (py_or_empty body \<noteq> py_or_empty body'
    \<longrightarrow> content_string title body snips \<noteq> content_string title body' snips) \<and>
   (language_code s \<noteq> language_code t \<and>
    (fst (language_code s) = fst (language_code t) \<or>
     snd (language_code s) = snd (language_code t))
    \<longrightarrow> content_string title body (Some (pre @ s # post))
          \<noteq> content_string title body (Some (pre @ t # post))) \<and>
   (delimiter_free title body snips \<and> delimiter_free title' body' snips' \<and>
    (py_or_empty title \<noteq> py_or_empty title' \<or> py_or_empty body \<noteq> py_or_empty body' \<or>
     map language_code (py_or_nil snips) \<noteq> map language_code (py_or_nil snips'))
    \<longrightarrow> content_string title body snips \<noteq> content_string title' body' snips')"
proof (intro conjI impI)
  show "generate_content_hash title body snips
     = sha256_hexdigest (py_encode (content_string title body snips))"
    by (simp add: generate_content_hash_def)
next
  assume "py_or_empty title = py_or_empty title' \<and> py_or_empty body = py_or_empty body' \<and>
    map language_code (py_or_nil snips) = map language_code (py_or_nil snips')"
  then have "content_string title body snips = content_string title' body' snips'"
    using map_snippet_str_cong [of "py_or_nil snips" "py_or_nil snips'"]
    by (simp add: content_string_def)
  then show "generate_content_hash title body snips = generate_content_hash title' body' snips'"
    by (simp add: generate_content_hash_def)
next
  assume "py_or_empty title \<noteq> py_or_empty title'"
  then show "content_string title body snips \<noteq> content_string title' body snips"
    using content_string_title [of title body snips title'] by blast
next
  assume "py_or_empty body \<noteq> py_or_empty body'"
  then show "content_string title body snips \<noteq> content_string title body' snips"
    using content_string_body [of title body snips body'] by blast
next
  assume "language_code s \<noteq> language_code t \<and>
    (fst (language_code s) = fst (language_code t) \<or>
     snd (language_code s) = snd (language_code t))"
  then have "snippet_str s \<noteq> snippet_str t"
    using snippet_str_change_one [of s t] by blast
  then show "content_string title body (Some (pre @ s # post))
          \<noteq> content_string title body (Some (pre @ t # post))"
    using content_string_snippet [of title body pre s post t] by blast
next
  assume "delimiter_free title body snips \<and> delimiter_free title' body' snips' \<and>
    (py_or_empty title \<noteq> py_or_empty title' \<or> py_or_empty body \<noteq> py_or_empty body' \<or>
     map language_code (py_or_nil snips) \<noteq> map language_code (py_or_nil snips'))"
  then show "content_string title body snips \<noteq> content_string title' body' snips'"
    using content_string_inj [of title body snips title' body' snips'] by blast
qed

text \<open>
  Examples: two snippets that differ in the fields the hash does not read; a title that
  changes alone and contains the separator; a code that changes alone; a body that changes
  alone; a title and a code that change together, in texts with single bars.
\<close>

theorem generate_content_hash_fields_witness:
  "generate_content_hash (Some ''T'') (Some ''B'')
       (Some [\<lparr>sn_language = Some ''py'', sn_code = Some ''x=1'', sn_context = Some ''ctx'',
               sn_intent = None, sn_dependencies = None, sn_pitfalls = None\<rparr>])
     = generate_content_hash (Some ''T'') (Some ''B'')
       (Some [\<lparr>sn_language = Some ''py'', sn_code = Some ''x=1'', sn_context = None,
               sn_intent = Some ''assign'', sn_dependencies = Some [], sn_pitfalls = None\<rparr>]) \<and>
   content_string (Some ''a|||b'') (Some ''c'') None
     \<noteq> content_string (Some ''a'') (Some ''c'') None \<and>
   content_string (Some ''a'') (Some ''b|||c'') None
     \<noteq> content_string (Some ''a'') (Some ''c'') None \<and>
   content_string (Some ''T'') (Some ''B'')
       (Some [\<lparr>sn_language = Some ''sh'', sn_code = Some ''ls ||| wc'', sn_context = None,
               sn_intent = None, sn_dependencies = None, sn_pitfalls = None\<rparr>])
     \<noteq> content_string (Some ''T'') (Some ''B'')
       (Some [\<lparr>sn_language = Some ''sh'', sn_code = Some ''ls'', sn_context = None,
               sn_intent = None, sn_dependencies = None, sn_pitfalls = None\<rparr>]) \<and>
   content_string (Some ''Post | Blog'') (Some ''B'')
       (Some [\<lparr>sn_language = Some ''sh'', sn_code = Some ''ls | wc'', sn_context = None,
               sn_intent = None, sn_dependencies = None, sn_pitfalls = None\<rparr>])
     \<noteq> content_string (Some ''Post | News'') (Some ''B'')
       (Some [\<lparr>sn_language = Some ''sh'', sn_code = Some ''ls | sort'', sn_context = None,
               sn_intent = None, sn_dependencies = None, sn_pitfalls = None\<rparr>])"
proof -
  let ?s = "\<lparr>sn_language = Some ''py'', sn_code = Some ''x=1'', sn_context = Some ''ctx'',
             sn_intent = None, sn_dependencies = None, sn_pitfalls = None\<rparr>"
  let ?s' = "\<lparr>sn_language = Some ''py'', sn_code = Some ''x=1'', sn_context = None,
              sn_intent = Some ''assign'', sn_dependencies = Some [], sn_pitfalls = None\<rparr>"
  let ?u = "\<lparr>sn_language = Some ''sh'', sn_code = Some ''ls ||| wc'', sn_context = None,
             sn_intent = None, sn_dependencies = None, sn_pitfalls = None\<rparr>"
  let ?u' = "\<lparr>sn_language = Some ''sh'', sn_code = Some ''ls'', sn_context = None,
              sn_intent = None, sn_dependencies = None, sn_pitfalls = None\<rparr>"
  let ?v = "\<lparr>sn_language = Some ''sh'', sn_code = Some ''ls | wc'', sn_context = None,
             sn_intent = None, sn_dependencies = None, sn_pitfalls = None\<rparr>"
  let ?v' = "\<lparr>sn_language = Some ''sh'', sn_code = Some ''ls | sort'', sn_context = None,
              sn_intent = None, sn_dependencies = None, sn_pitfalls = None\<rparr>"
  have same: "py_or_empty (Some ''T'') = py_or_empty (Some ''T'') \<and>
      py_or_empty (Some ''B'') = py_or_empty (Some ''B'') \<and>
      map language_code (py_or_nil (Some [?s])) = map language_code (py_or_nil (Some [?s']))"
    by (simp add: py_or_nil_def language_code_def)
  have title: "py_or_empty (Some ''a|||b'') \<noteq> py_or_empty (Some ''a'')"
    by (simp add: py_or_empty_def)
  have body: "py_or_empty (Some ''b|||c'') \<noteq> py_or_empty (Some ''c'')"
    by (simp add: py_or_empty_def)
  have code: "language_code ?u \<noteq> language_code ?u' \<and>
      (fst (language_code ?u) = fst (language_code ?u') \<or>
       snd (language_code ?u) = snd (language_code ?u'))"
    by (simp add: language_code_def py_or_empty_def)
  have free: "delimiter_free (Some ''Post | Blog'') (Some ''B'') (Some [?v])"
    "delimiter_free (Some ''Post | News'') (Some ''B'') (Some [?v'])"
    by (simp_all add: delimiter_free_def bar_safe_def colon_safe_def py_or_nil_def
          py_or_empty_def language_code_def snippet_str_def py_startswith_def py_endswith_def)
  have differ: "delimiter_free (Some ''Post | Blog'') (Some ''B'') (Some [?v]) \<and>
      delimiter_free (Some ''Post | News'') (Some ''B'') (Some [?v']) \<and>
      (py_or_empty (Some ''Post | Blog'') \<noteq> py_or_empty (Some ''Post | News'') \<or>
       py_or_empty (Some ''B'') \<noteq> py_or_empty (Some ''B'') \<or>
       map language_code (py_or_nil (Some [?v])) \<noteq> map language_code (py_or_nil (Some [?v'])))"
    using free by (simp add: py_or_empty_def)
  from generate_content_hash_fields
         [where title = "Some ''T''" and body = "Some ''B''" and snips = "Some [?s]"
            and title' = "Some ''T''" and body' = "Some ''B''" and snips' = "Some [?s']"] same
  have c1: "generate_content_hash (Some ''T'') (Some ''B'') (Some [?s])
          = generate_content_hash (Some ''T'') (Some ''B'') (Some [?s'])"
    by blast
  from generate_content_hash_fields
         [where title = "Some ''a|||b''" and body = "Some ''c''" and snips = None
            and title' = "Some ''a''"] title
  have c2: "content_string (Some ''a|||b'') (Some ''c'') None
          \<noteq> content_string (Some ''a'') (Some ''c'') None"
    by blast
  from generate_content_hash_fields
         [where title = "Some ''a''" and body = "Some ''b|||c''" and snips = None
            and body' = "Some ''c''"] body
  have c3: "content_string (Some ''a'') (Some ''b|||c'') None
          \<noteq> content_string (Some ''a'') (Some ''c'') None"
    by blast
  from generate_content_hash_fields
         [where title = "Some ''T''" and body = "Some ''B''" and s = ?u and t = ?u'
            and pre = "[]" and post = "[]"] code
  have "content_string (Some ''T'') (Some ''B'') (Some ([] @ ?u # []))
          \<noteq> content_string (Some ''T'') (Some ''B'') (Some ([] @ ?u' # []))"
    by blast
  then have c4: "content_string (Some ''T'') (Some ''B'') (Some [?u])
          \<noteq> content_string (Some ''T'') (Some ''B'') (Some [?u'])"
    by simp
  from generate_content_hash_fields
         [where title = "Some ''Post | Blog''" and body = "Some ''B''" and snips = "Some [?v]"
            and title' = "Some ''Post | News''" and body' = "Some ''B''"
            and snips' = "Some [?v']"] differ
  have c5: "content_string (Some ''Post | Blog'') (Some ''B'') (Some [?v])
          \<noteq> content_string (Some ''Post | News'') (Some ''B'') (Some [?v'])"
    by blast
  from c1 c2 c3 c4 c5 show ?thesis by blast
qed

text \<open>
  A change of title and body text that leaves the digest as it was: the separator \<open>|||\<close>
  moved from the title into the body.
\<close>

theorem generate_content_hash_collision:
  "(Some ''a|||b'', Some ''c'') \<noteq> (Some ''a'', Some ''b|||c'') \<and>
   generate_content_hash (Some ''a|||b'') (Some ''c'') (Some [])
     = generate_content_hash (Some ''a'') (Some ''b|||c'') (Some [])"
  by (simp add: generate_content_hash_def content_string_def py_or_empty_def py_or_nil_def)

section \<open>Properties of the enrichment schema\<close>

lemma validate_all_Inr:
  "(\<exists>ys. validate_all f xs = Inr ys) \<longleftrightarrow> (\<forall>x \<in> set xs. \<exists>y. f x = Inr y)"
  by (induction xs) (auto split: sum.splits)

lemma CodeSnippetEnrichment_Inr:
  "(\<exists>y. CodeSnippetEnrichment d = Inr y) \<longleftrightarrow> sd_intent d \<noteq> None"
  by (auto simp: CodeSnippetEnrichment_def split: option.splits)

lemma validate_tags_no_space: "t \<in> set (validate_tags v) \<Longrightarrow> CHR '' '' \<notin> set t"
  by (auto simp: validate_tags_def py_replace_char_def)

lemma KnowledgeItemEnrichment_Inr_iff:
  "KnowledgeItemEnrichment d = Inr e \<longleftrightarrow>
     (\<exists>s t q cs. ed_summary d = Some s \<and> ed_tags d = Some t \<and> ed_quality_score d = Some q \<and>
        length s \<le> 500 \<and> length t \<le> 15 \<and> 0 \<le> q \<and> q \<le> 1 \<and>
        validate_all CodeSnippetEnrichment (py_or_nil (ed_code_snippets d)) = Inr cs \<and>
        e = \<lparr>en_summary = s, en_tags = validate_tags t,
             en_primary_language = ed_primary_language d, en_framework = ed_framework d,
             en_quality_score = q, en_code_snippets = cs\<rparr>)"
  by (cases "ed_summary d"; cases "ed_tags d"; cases "ed_quality_score d";
      cases "validate_all CodeSnippetEnrichment (py_or_nil (ed_code_snippets d))")
     (auto simp: KnowledgeItemEnrichment_def)

text \<open>
  C8. The enrichment schema accepts its input exactly when the required fields are there,
  the summary has at most 500 characters, there are at most 15 tags, the quality score
  lies in \<open>[0, 1]\<close> and every snippet entry has an intent; the accepted tags are the given
  ones without those that are empty after trimming, each lower-cased, trimmed of
  surrounding whitespace and with its inner spaces replaced by hyphens.
\<close>

theorem enrichment_schema_accepts:
  "((\<exists>e. KnowledgeItemEnrichment d = Inr e) \<longleftrightarrow>
      (\<exists>s t q. ed_summary d = Some s \<and> ed_tags d = Some t \<and> ed_quality_score d = Some q \<and>
         length s \<le> 500 \<and> length t \<le> 15 \<and> 0 \<le> q \<and> q \<le> 1 \<and>
         (\<forall>c \<in> set (py_or_nil (ed_code_snippets d)). sd_intent c \<noteq> None))) \<and>
   (\<forall>e. KnowledgeItemEnrichment d = Inr e \<longrightarrow>
      ed_summary d = Some (en_summary e) \<and> ed_quality_score d = Some (en_quality_score e) \<and>
      (\<exists>t. ed_tags d = Some t \<and>
         en_tags e = map (\<lambda>tag. py_replace_char CHR '' '' CHR ''-'' (py_strip (py_lower tag)))
                       (filter (\<lambda>tag. py_strip tag \<noteq> []) t)) \<and>
      (\<forall>t \<in> set (en_tags e). CHR '' '' \<notin> set t))"
proof -
  have snippets: "(\<exists>cs. validate_all CodeSnippetEnrichment (py_or_nil (ed_code_snippets d)) = Inr cs)
      \<longleftrightarrow> (\<forall>c \<in> set (py_or_nil (ed_code_snippets d)). sd_intent c \<noteq> None)"
    by (simp add: validate_all_Inr CodeSnippetEnrichment_Inr)
  have accepts: "(\<exists>e. KnowledgeItemEnrichment d = Inr e) \<longleftrightarrow>
      (\<exists>s t q. ed_summary d = Some s \<and> ed_tags d = Some t \<and> ed_quality_score d = Some q \<and>
         length s \<le> 500 \<and> length t \<le> 15 \<and> 0 \<le> q \<and> q \<le> 1 \<and>
         (\<forall>c \<in> set (py_or_nil (ed_code_snippets d)). sd_intent c \<noteq> None))"
    unfolding KnowledgeItemEnrichment_Inr_iff snippets [symmetric] by blast
  have result: "ed_summary d = Some (en_summary e) \<and> ed_quality_score d = Some (en_quality_score e) \<and>
      (\<exists>t. ed_tags d = Some t \<and>
         en_tags e = map (\<lambda>tag. py_replace_char CHR '' '' CHR ''-'' (py_strip (py_lower tag)))
                       (filter (\<lambda>tag. py_strip tag \<noteq> []) t)) \<and>
      (\<forall>t \<in> set (en_tags e). CHR '' '' \<notin> set t)"
    if ok: "KnowledgeItemEnrichment d = Inr e" for e
  proof -
    from ok obtain s t q cs where "ed_summary d = Some s" "ed_tags d = Some t"
      "ed_quality_score d = Some q"
      and e: "e = \<lparr>en_summary = s, en_tags = validate_tags t,
             en_primary_language = ed_primary_language d, en_framework = ed_framework d,
             en_quality_score = q, en_code_snippets = cs\<rparr>"
      unfolding KnowledgeItemEnrichment_Inr_iff by blast
    moreover have "en_tags e = validate_tags t" using e by simp
    moreover have "\<forall>x \<in> set (validate_tags t). CHR '' '' \<notin> set x"
      using validate_tags_no_space by blast
    ultimately show ?thesis by (simp add: validate_tags_def)
  qed
  from accepts result show ?thesis by blast
qed


theorem enrichment_schema_accepts_witness:
  "(\<exists>e. KnowledgeItemEnrichment
          \<lparr>ed_summary = Some ''Test'', ed_tags = Some [''Python'', ''React.js'', '' Machine Learning '', ''  ''],
           ed_primary_language = None, ed_framework = None, ed_quality_score = Some (1 / 2),
           ed_code_snippets = Some []\<rparr> = Inr e \<and>
        en_tags e = [''python'', ''react.js'', ''machine-learning'']) \<and>
   \<not> (\<exists>e. KnowledgeItemEnrichment
          \<lparr>ed_summary = Some ''Test'', ed_tags = Some [],
           ed_primary_language = None, ed_framework = None, ed_quality_score = Some (3 / 2),
           ed_code_snippets = Some []\<rparr> = Inr e)"
proof -
  let ?d0 = "\<lparr>ed_summary = Some ''Test'', ed_tags = Some [''Python'', ''React.js'', '' Machine Learning '', ''  ''],
           ed_primary_language = None, ed_framework = None, ed_quality_score = Some (1 / 2),
           ed_code_snippets = Some []\<rparr>"
  let ?d1 = "\<lparr>ed_summary = Some ''Test'', ed_tags = Some [],
           ed_primary_language = None, ed_framework = None, ed_quality_score = Some (3 / 2),
           ed_code_snippets = Some []\<rparr>"
  have "ed_summary ?d0 = Some ''Test'' \<and>
      ed_tags ?d0 = Some [''Python'', ''React.js'', '' Machine Learning '', ''  ''] \<and>
      ed_quality_score ?d0 = Some (1 / 2) \<and> length ''Test'' \<le> 500 \<and>
      length [''Python'', ''React.js'', '' Machine Learning '', ''  ''] \<le> 15 \<and>
      0 \<le> (1 / 2 :: real) \<and> (1 / 2 :: real) \<le> 1 \<and>
      (\<forall>c \<in> set (py_or_nil (ed_code_snippets ?d0)). sd_intent c \<noteq> None)"
    by (simp add: py_or_nil_def)
  then have c0: "\<exists>s t q. ed_summary ?d0 = Some s \<and> ed_tags ?d0 = Some t \<and> ed_quality_score ?d0 = Some q \<and>
         length s \<le> 500 \<and> length t \<le> 15 \<and> 0 \<le> q \<and> q \<le> 1 \<and>
         (\<forall>c \<in> set (py_or_nil (ed_code_snippets ?d0)). sd_intent c \<noteq> None)"
    by blast
  from enrichment_schema_accepts [of ?d0] c0
  obtain e where e: "KnowledgeItemEnrichment ?d0 = Inr e"
    by blast
  from enrichment_schema_accepts [of ?d0] e
  have "\<exists>t. ed_tags ?d0 = Some t \<and>
         en_tags e = map (\<lambda>tag. py_replace_char CHR '' '' CHR ''-'' (py_strip (py_lower tag)))
                       (filter (\<lambda>tag. py_strip tag \<noteq> []) t)"
    by blast
  then have tags: "en_tags e = [''python'', ''react.js'', ''machine-learning'']"
    by (simp add: py_strip_def py_isspace_def py_lower_def py_lower_char_def
        py_replace_char_def char_of_eq_iff)
  have c1: "\<not> (\<exists>s t q. ed_summary ?d1 = Some s \<and> ed_tags ?d1 = Some t \<and> ed_quality_score ?d1 = Some q \<and>
         length s \<le> 500 \<and> length t \<le> 15 \<and> 0 \<le> q \<and> q \<le> 1 \<and>
         (\<forall>c \<in> set (py_or_nil (ed_code_snippets ?d1)). sd_intent c \<noteq> None))"
    by simp
  from enrichment_schema_accepts [of ?d1] c1
  have "\<not> (\<exists>e. KnowledgeItemEnrichment ?d1 = Inr e)"
    by blast
  with e tags show ?thesis by blast
qed

section \<open>Properties of the query construction\<close>

text \<open>
  C6, as the code has it. In semantic-only mode (\<open>semantic\<close> true, \<open>hybrid\<close> false):

  \<^item> with a query embedding supplied, the built query has exactly one required clause,
    the script score over \<open>match_all\<close> whose script is the text
    \<open>cosineSimilarity(params.query_vector, 'embedding') + 1.0\<close> with the embedding as
    \<open>query_vector\<close>, and no optional clause;
  \<^item> with no embedding (none, or an empty one), nothing is required of the caller: the
    query is built all the same, with no required and no optional clause, so that only
    the filters select;
  \<^item> in both cases the free-text query adds no clause: the query is the one built without
    it.
\<close>

theorem semantic_only_query:
  assumes "semantic" "\<not> hybrid"
  shows "(\<forall>e. query_embedding = Some e \<and> e \<noteq> [] \<longrightarrow>
            bq_must (sr_query (build_search_query q source_type primary_language framework tags
                       from_date semantic hybrid query_embedding page sz))
              = Some [ScriptScore MatchAll
                        (''cosineSimilarity(params.query_vector, '' @ [CHR 0x27] @ ''embedding''
                           @ [CHR 0x27] @ '') + 1.0'') e]) \<and>
         (query_embedding = None \<or> query_embedding = Some [] \<longrightarrow>
            bq_must (sr_query (build_search_query q source_type primary_language framework tags
                       from_date semantic hybrid query_embedding page sz)) = None) \<and>
         bq_should (sr_query (build_search_query q source_type primary_language framework tags
                     from_date semantic hybrid query_embedding page sz)) = None \<and>
         bq_minimum_should_match (sr_query (build_search_query q source_type primary_language
                     framework tags from_date semantic hybrid query_embedding page sz)) = None \<and>
         sr_query (build_search_query q source_type primary_language framework tags
                     from_date semantic hybrid query_embedding page sz)
           = sr_query (build_search_query None source_type primary_language framework tags
                     from_date semantic hybrid query_embedding page sz)"
  using assms
  by (auto simp: build_search_query_def Let_def truthy_def set_if_any_def vector_query_def
        script_source_def)

theorem semantic_only_query_witness:
  "bq_must (sr_query (build_search_query (Some ''python async'') None None None None None
              True False (Some [1 / 10, 1 / 5]) 1 20))
     = Some [ScriptScore MatchAll
               (''cosineSimilarity(params.query_vector, '' @ [CHR 0x27] @ ''embedding''
                  @ [CHR 0x27] @ '') + 1.0'') [1 / 10, 1 / 5]] \<and>
   bq_must (sr_query (build_search_query (Some ''python async'') None None None None None
              True False None 1 20)) = None \<and>
   bq_should (sr_query (build_search_query (Some ''python async'') None None None None None
              True False (Some [1 / 10, 1 / 5]) 1 20)) = None \<and>
   sr_query (build_search_query (Some ''python async'') None None None None None
              True False (Some [1 / 10, 1 / 5]) 1 20)
     = sr_query (build_search_query None None None None None None
              True False (Some [1 / 10, 1 / 5]) 1 20)"
proof -
  have mode: "True" "\<not> False"
    by simp_all
  note with_embedding = semantic_only_query [OF mode,
      where query_embedding = "Some [1 / 10, 1 / 5]" and q = "Some ''python async''"
        and source_type = None and primary_language = None and framework = None
        and tags = None and from_date = None and page = 1 and sz = 20]
  note without = semantic_only_query [OF mode,
      where query_embedding = None and q = "Some ''python async''"
        and source_type = None and primary_language = None and framework = None
        and tags = None and from_date = None and page = 1 and sz = 20]
  have given: "Some [1 / 10, 1 / 5 :: real] = Some [1 / 10, 1 / 5] \<and> [1 / 10, 1 / 5 :: real] \<noteq> []"
    by simp
  have missing: "(None :: real list option) = None \<or> (None :: real list option) = Some []"
    by simp
  from with_embedding [THEN conjunct1, THEN spec, THEN mp, OF given]
    without [THEN conjunct2, THEN conjunct1, THEN mp, OF missing]
    with_embedding [THEN conjunct2, THEN conjunct2, THEN conjunct1]
    with_embedding [THEN conjunct2, THEN conjunct2, THEN conjunct2, THEN conjunct2]
  show ?thesis
    by (intro conjI)
qed

text \<open>
  A semantic-only search without a text, as \<open>GET /search?semantic=true\<close> makes it (the
  route asks for an embedding only when there is a text): the request is built, no
  embedding is required, and its query is the empty \<open>bool\<close> query, which matches every
  document.
\<close>

theorem semantic_only_without_embedding:
  "build_search_query None None None None None None True False None 1 20 =
     \<lparr>sr_query = \<lparr>bq_must = None, bq_should = None, bq_minimum_should_match = None,
                   bq_filter = None\<rparr>,
      sr_from = 0, sr_size = 20, sr_highlight = False\<rparr>"
  by (simp add: build_search_query_def Let_def truthy_def set_if_any_def)

section \<open>Properties of ingestion\<close>

lemma find_append_single:
  "find P (xs @ [y]) = (case find P xs of Some x \<Rightarrow> Some x | None \<Rightarrow> if P y then Some y else None)"
  by (induction xs) simp_all

lemma find_replace_first_same:
  "find P xs = Some x \<Longrightarrow> P y \<Longrightarrow> find P (replace_first P y xs) = Some y"
  by (induction xs) (auto split: if_splits)

lemma find_replace_first_other:
  "(\<And>x. P x \<Longrightarrow> \<not> Q x) \<Longrightarrow> \<not> Q y \<Longrightarrow> find Q (replace_first P y xs) = find Q xs"
  by (induction xs) auto

lemma length_replace_first: "length (replace_first P y xs) = length xs"
  by (induction xs) simp_all

lemma overwrite_key_hash:
  "ki_dedupe_key (overwrite existing item) = ki_dedupe_key item"
  "ki_content_hash (overwrite existing item) = ki_content_hash item"
  "ki_id (overwrite existing item) = ki_id existing"
  by (simp_all add: overwrite_def)

lemma ingest_item_insert:
  assumes "first_by_dedupe_key (ki_dedupe_key item) db = None"
    and "commit_ok (item\<lparr>ki_id := Some (next_id db)\<rparr>)"
  shows "ingest_item commit_ok item (db, stats) =
          (\<lparr>rows = rows db @ [item\<lparr>ki_id := Some (next_id db)\<rparr>], next_id = next_id db + 1\<rparr>,
           stats\<lparr>st_processed := st_processed stats + 1, st_stored := st_stored stats + 1,
                 st_indexed := st_indexed stats + 1\<rparr>)"
  using assms by (simp add: ingest_item_def Let_def)

lemma ingest_item_skip:
  assumes "first_by_dedupe_key (ki_dedupe_key item) db = Some existing"
    and "ki_content_hash existing = ki_content_hash item"
  shows "ingest_item commit_ok item (db, stats) =
          (db, stats\<lparr>st_processed := st_processed stats + 1, st_skipped := st_skipped stats + 1\<rparr>)"
  using assms by (simp add: ingest_item_def Let_def)

lemma ingest_item_update:
  assumes "first_by_dedupe_key (ki_dedupe_key item) db = Some existing"
    and "ki_content_hash existing \<noteq> ki_content_hash item"
    and "commit_ok (overwrite existing item)"
  shows "ingest_item commit_ok item (db, stats) =
          (db\<lparr>rows := replace_first (\<lambda>r. ki_dedupe_key r = ki_dedupe_key item)
                         (overwrite existing item) (rows db)\<rparr>,
           stats\<lparr>st_processed := st_processed stats + 1, st_stored := st_stored stats + 1,
                 st_indexed := st_indexed stats + 1\<rparr>)"
  using assms by (simp add: ingest_item_def Let_def)

text \<open>
  When the database refuses the commit, nothing is written, and the item has been counted
  in \<open>stored\<close> all the same.
\<close>

lemma ingest_item_insert_refused:
  assumes "first_by_dedupe_key (ki_dedupe_key item) db = None"
    and "\<not> commit_ok (item\<lparr>ki_id := Some (next_id db)\<rparr>)"
  shows "ingest_item commit_ok item (db, stats) =
          (db, stats\<lparr>st_processed := st_processed stats + 1, st_stored := st_stored stats + 1\<rparr>)"
  using assms by (simp add: ingest_item_def Let_def)

lemma ingest_item_update_refused:
  assumes "first_by_dedupe_key (ki_dedupe_key item) db = Some existing"
    and "ki_content_hash existing \<noteq> ki_content_hash item"
    and "\<not> commit_ok (overwrite existing item)"
  shows "ingest_item commit_ok item (db, stats) =
          (db, stats\<lparr>st_processed := st_processed stats + 1, st_stored := st_stored stats + 1\<rparr>)"
  using assms by (simp add: ingest_item_def Let_def)

lemma accept_all_rows: "\<forall>row. accept_all row"
  by (simp add: accept_all_def)

text \<open>
  The number of uncommitted items never goes down, and a step that leaves it as it was is
  the step of a database that accepts every row.
\<close>

lemma ingest_item_uncommitted:
  "uncommitted stats \<le> uncommitted (snd (ingest_item commit_ok item (db, stats)))"
  by (simp add: ingest_item_def Let_def uncommitted_def split: option.splits)

lemma ingest_item_committed:
  assumes "uncommitted (snd (ingest_item commit_ok item (db, stats))) \<le> uncommitted stats"
  shows "ingest_item commit_ok item (db, stats) = ingest_item accept_all item (db, stats)"
proof (cases "first_by_dedupe_key (ki_dedupe_key item) db")
  case None
  show ?thesis
  proof (cases "commit_ok (item\<lparr>ki_id := Some (next_id db)\<rparr>)")
    case True
    with None show ?thesis
      by (simp add: ingest_item_insert accept_all_def)
  next
    case False
    with None assms show ?thesis
      by (simp add: ingest_item_insert_refused uncommitted_def)
  qed
next
  case (Some existing)
  show ?thesis
  proof (cases "ki_content_hash existing = ki_content_hash item")
    case True
    with Some show ?thesis
      by (simp add: ingest_item_skip)
  next
    case differ: False
    show ?thesis
    proof (cases "commit_ok (overwrite existing item)")
      case True
      with Some differ show ?thesis
        by (simp add: ingest_item_update accept_all_def)
    next
      case False
      with Some differ assms show ?thesis
        by (simp add: ingest_item_update_refused uncommitted_def)
    qed
  qed
qed

lemma ingest_loop_uncommitted:
  "uncommitted (snd s) \<le> uncommitted (snd (ingest_loop process_item commit_ok raws s))"
proof (induction raws arbitrary: s)
  case Nil
  show ?case by simp
next
  case (Cons raw raws)
  show ?case
  proof (cases "process_item raw")
    case None
    with Cons show ?thesis by simp
  next
    case (Some item)
    obtain db stats where s: "s = (db, stats)"
      by (cases s)
    have "uncommitted (snd s) \<le> uncommitted (snd (ingest_item commit_ok item s))"
      unfolding s by (simp add: ingest_item_uncommitted)
    also have "\<dots> \<le> uncommitted (snd (ingest_loop process_item commit_ok raws
                                          (ingest_item commit_ok item s)))"
      by (rule Cons.IH)
    finally show ?thesis using Some by simp
  qed
qed

lemma ingest_loop_committed:
  assumes "uncommitted (snd (ingest_loop process_item commit_ok raws s)) \<le> uncommitted (snd s)"
  shows "ingest_loop process_item commit_ok raws s = ingest_loop process_item accept_all raws s"
  using assms
proof (induction raws arbitrary: s)
  case Nil
  show ?case by simp
next
  case (Cons raw raws)
  show ?case
  proof (cases "process_item raw")
    case None
    with Cons show ?thesis by simp
  next
    case (Some item)
    obtain db stats where s: "s = (db, stats)"
      by (cases s)
    let ?s1 = "ingest_item commit_ok item s"
    from Cons.prems Some
    have final: "uncommitted (snd (ingest_loop process_item commit_ok raws ?s1))
                   \<le> uncommitted (snd s)"
      by simp
    have mono: "uncommitted (snd ?s1)
                  \<le> uncommitted (snd (ingest_loop process_item commit_ok raws ?s1))"
      by (rule ingest_loop_uncommitted)
    have first: "uncommitted (snd s) \<le> uncommitted (snd ?s1)"
      unfolding s by (simp add: ingest_item_uncommitted)
    from final mono have "uncommitted (snd ?s1) \<le> uncommitted (snd s)"
      by simp
    then have step: "?s1 = ingest_item accept_all item s"
      unfolding s snd_conv by (rule ingest_item_committed)
    from final first
    have "uncommitted (snd (ingest_loop process_item commit_ok raws ?s1))
            \<le> uncommitted (snd ?s1)"
      by simp
    then have "ingest_loop process_item commit_ok raws ?s1
                 = ingest_loop process_item accept_all raws ?s1"
      by (rule Cons.IH)
    with step Some show ?thesis by simp
  qed
qed

text \<open>A database that accepts every row leaves no item uncommitted.\<close>

lemma ingest_item_all_committed:
  assumes "\<forall>row. commit_ok row"
  shows "uncommitted (snd (ingest_item commit_ok item (db, stats))) = uncommitted stats"
  using assms by (simp add: ingest_item_def Let_def uncommitted_def split: option.splits)

lemma ingest_loop_all_committed:
  assumes "\<forall>row. commit_ok row"
  shows "uncommitted (snd (ingest_loop process_item commit_ok raws s)) = uncommitted (snd s)"
proof (induction raws arbitrary: s)
  case Nil
  show ?case by simp
next
  case (Cons raw raws)
  show ?case
  proof (cases "process_item raw")
    case None
    with Cons show ?thesis by simp
  next
    case (Some item)
    obtain db stats where s: "s = (db, stats)"
      by (cases s)
    have "uncommitted (snd (ingest_item commit_ok item s)) = uncommitted (snd s)"
      unfolding s snd_conv by (rule ingest_item_all_committed [OF assms])
    with Cons.IH [of "ingest_item commit_ok item s"] Some show ?thesis
      by simp
  qed
qed

lemma ingest_item_covers:
  assumes "\<forall>row. commit_ok row"
  shows "\<exists>r. first_by_dedupe_key (ki_dedupe_key item) (fst (ingest_item commit_ok item (db, stats)))
               = Some r \<and> ki_content_hash r = ki_content_hash item"
proof (cases "first_by_dedupe_key (ki_dedupe_key item) db")
  case None
  with assms show ?thesis
    by (simp add: ingest_item_insert first_by_dedupe_key_def find_append_single)
next
  case (Some existing)
  show ?thesis
  proof (cases "ki_content_hash existing = ki_content_hash item")
    case True
    with Some show ?thesis by (simp add: ingest_item_skip)
  next
    case False
    from Some have "find (\<lambda>r. ki_dedupe_key r = ki_dedupe_key item)
        (replace_first (\<lambda>r. ki_dedupe_key r = ki_dedupe_key item) (overwrite existing item) (rows db))
        = Some (overwrite existing item)"
      unfolding first_by_dedupe_key_def
      by (rule find_replace_first_same) (simp add: overwrite_key_hash)
    with Some False assms show ?thesis
      by (simp add: ingest_item_update first_by_dedupe_key_def overwrite_key_hash)
  qed
qed

lemma ingest_item_other_keys:
  assumes "k \<noteq> ki_dedupe_key item"
  shows "first_by_dedupe_key k (fst (ingest_item commit_ok item (db, stats)))
           = first_by_dedupe_key k db"
proof -
  have "find (\<lambda>r. ki_dedupe_key r = k)
          (replace_first (\<lambda>r. ki_dedupe_key r = ki_dedupe_key item) (overwrite existing item) (rows db))
        = find (\<lambda>r. ki_dedupe_key r = k) (rows db)" for existing
    using assms by (intro find_replace_first_other) (auto simp: overwrite_key_hash)
  with assms show ?thesis
    by (auto simp: ingest_item_def Let_def first_by_dedupe_key_def find_append_single
             split: option.splits)
qed

lemma processed_items_Cons:
  "processed_items process_item (raw # raws) =
     (case process_item raw of
        None \<Rightarrow> processed_items process_item raws
      | Some item \<Rightarrow> item # processed_items process_item raws)"
  by (simp add: processed_items_def List.map_filter_simps split: option.splits)

lemma first_run_up_to_date:
  assumes "\<forall>row. commit_ok row"
    and "key_consistent (prev @ processed_items process_item raws)"
    and "up_to_date db prev"
  shows "up_to_date (fst (ingest_loop process_item commit_ok raws (db, stats)))
           (prev @ processed_items process_item raws)"
  using assms(2,3)
proof (induction raws arbitrary: db stats prev)
  case Nil
  then show ?case by (simp add: processed_items_def List.map_filter_simps)
next
  case (Cons raw raws)
  show ?case
  proof (cases "process_item raw")
    case None
    with Cons show ?thesis by (simp add: processed_items_Cons)
  next
    case (Some item)
    obtain db' stats' where step: "ingest_item commit_ok item (db, stats) = (db', stats')"
      by (cases "ingest_item commit_ok item (db, stats)")
    from Some Cons.prems(1)
    have cons: "key_consistent ((prev @ [item]) @ processed_items process_item raws)"
      by (simp add: processed_items_Cons)
    have "up_to_date db' (prev @ [item])"
      unfolding up_to_date_def
    proof
      fix b assume b: "b \<in> set (prev @ [item])"
      show "\<exists>r. first_by_dedupe_key (ki_dedupe_key b) db' = Some r \<and>
                 ki_content_hash r = ki_content_hash b"
      proof (cases "ki_dedupe_key b = ki_dedupe_key item")
        case True
        from b cons True have "ki_content_hash b = ki_content_hash item"
          unfolding key_consistent_def by auto
        with True ingest_item_covers [OF assms(1), of item db stats] step
        show ?thesis by simp
      next
        case False
        with b have "b \<in> set prev" by auto
        with Cons.prems(2) obtain r where "first_by_dedupe_key (ki_dedupe_key b) db = Some r"
          "ki_content_hash r = ki_content_hash b"
          unfolding up_to_date_def by blast
        with ingest_item_other_keys [OF False, of commit_ok db stats] step
        show ?thesis by simp
      qed
    qed
    from Cons.IH [OF cons this, of stats'] Some step show ?thesis
      by (simp add: processed_items_Cons)
  qed
qed

lemma second_run_skips:
  assumes "up_to_date db (processed_items process_item raws)"
  shows "ingest_loop process_item commit_ok raws (db, stats) =
           (db, stats\<lparr>st_processed := st_processed stats + length (processed_items process_item raws),
                       st_skipped := st_skipped stats + length (processed_items process_item raws)\<rparr>)"
  using assms
proof (induction raws arbitrary: stats)
  case Nil
  then show ?case by (simp add: processed_items_def List.map_filter_simps)
next
  case (Cons raw raws)
  show ?case
  proof (cases "process_item raw")
    case None
    with Cons show ?thesis by (simp add: processed_items_Cons)
  next
    case (Some item)
    with Cons.prems obtain r where r: "first_by_dedupe_key (ki_dedupe_key item) db = Some r"
      "ki_content_hash r = ki_content_hash item"
      and rest: "up_to_date db (processed_items process_item raws)"
      unfolding up_to_date_def by (auto simp: processed_items_Cons)
    from Cons.IH [OF rest] Some ingest_item_skip [OF r]
    show ?thesis by (simp add: processed_items_Cons)
  qed
qed


lemma length_processed_items_all:
  "\<forall>raw \<in> set raws. process_item raw \<noteq> None \<Longrightarrow>
   length (processed_items process_item raws) = length raws"
  by (induction raws) (auto simp: processed_items_Cons processed_items_def List.map_filter_simps)

text \<open>
  C3, as the code has it. For a processed item, \<open>ingest\<close> follows the decision table as
  long as the database accepts the row it writes: with no record of the same
  deduplication key the item is appended to the table and counted in \<open>stored\<close>; with a
  record of equal content hash nothing is written and the item is counted in \<open>skipped\<close>;
  with a record of another content hash that record takes the new content and metadata
  fields, keeps its id (no row is added), and the item is counted in \<open>stored\<close>. When the
  database refuses the write, the session is rolled back and the table is as it was.
\<close>

theorem ingest_decision_table:
  "(first_by_dedupe_key (ki_dedupe_key item) db = None \<longrightarrow>
      (commit_ok (item\<lparr>ki_id := Some (next_id db)\<rparr>) \<longrightarrow>
         ingest_item commit_ok item (db, stats) =
           (\<lparr>rows = rows db @ [item\<lparr>ki_id := Some (next_id db)\<rparr>], next_id = next_id db + 1\<rparr>,
            stats\<lparr>st_processed := st_processed stats + 1, st_stored := st_stored stats + 1,
                  st_indexed := st_indexed stats + 1\<rparr>)) \<and>
      (\<not> commit_ok (item\<lparr>ki_id := Some (next_id db)\<rparr>) \<longrightarrow>
         fst (ingest_item commit_ok item (db, stats)) = db)) \<and>
   (\<forall>existing. first_by_dedupe_key (ki_dedupe_key item) db = Some existing \<and>
               ki_content_hash existing = ki_content_hash item \<longrightarrow>
      ingest_item commit_ok item (db, stats) =
        (db, stats\<lparr>st_processed := st_processed stats + 1,
                    st_skipped := st_skipped stats + 1\<rparr>)) \<and>
   (\<forall>existing. first_by_dedupe_key (ki_dedupe_key item) db = Some existing \<and>
               ki_content_hash existing \<noteq> ki_content_hash item \<longrightarrow>
      (commit_ok (overwrite existing item) \<longrightarrow>
        (\<exists>db' updated.
           ingest_item commit_ok item (db, stats) =
             (db', stats\<lparr>st_processed := st_processed stats + 1,
                         st_stored := st_stored stats + 1,
                         st_indexed := st_indexed stats + 1\<rparr>) \<and>
           first_by_dedupe_key (ki_dedupe_key item) db' = Some updated \<and>
           length (rows db') = length (rows db) \<and> next_id db' = next_id db \<and>
           ki_id updated = ki_id existing \<and>
           ki_source_type updated = ki_source_type item \<and>
           ki_source_name updated = ki_source_name item \<and>
           ki_source_url updated = ki_source_url item \<and>
           ki_title updated = ki_title item \<and>
           ki_summary updated = ki_summary item \<and>
           ki_body_text updated = ki_body_text item \<and>
           ki_code_snippets updated = ki_code_snippets item \<and>
           ki_tags updated = ki_tags item \<and>
           ki_primary_language updated = ki_primary_language item \<and>
           ki_framework updated = ki_framework item \<and>
           ki_author updated = ki_author item \<and>
           ki_licence updated = ki_licence item \<and>
           ki_published_at updated = ki_published_at item \<and>
           ki_content_hash updated = ki_content_hash item \<and>
           ki_dedupe_key updated = ki_dedupe_key item)) \<and>
      (\<not> commit_ok (overwrite existing item) \<longrightarrow>
         fst (ingest_item commit_ok item (db, stats)) = db))"
proof (intro conjI allI impI)
  assume "first_by_dedupe_key (ki_dedupe_key item) db = None"
    and "commit_ok (item\<lparr>ki_id := Some (next_id db)\<rparr>)"
  then show "ingest_item commit_ok item (db, stats) =
          (\<lparr>rows = rows db @ [item\<lparr>ki_id := Some (next_id db)\<rparr>], next_id = next_id db + 1\<rparr>,
           stats\<lparr>st_processed := st_processed stats + 1, st_stored := st_stored stats + 1,
                 st_indexed := st_indexed stats + 1\<rparr>)"
    by (rule ingest_item_insert)
next
  assume "first_by_dedupe_key (ki_dedupe_key item) db = None"
    and "\<not> commit_ok (item\<lparr>ki_id := Some (next_id db)\<rparr>)"
  then show "fst (ingest_item commit_ok item (db, stats)) = db"
    by (simp add: ingest_item_insert_refused)
next
  fix existing
  assume "first_by_dedupe_key (ki_dedupe_key item) db = Some existing \<and>
          ki_content_hash existing = ki_content_hash item"
  then show "ingest_item commit_ok item (db, stats) =
          (db, stats\<lparr>st_processed := st_processed stats + 1,
                      st_skipped := st_skipped stats + 1\<rparr>)"
    by (simp add: ingest_item_skip)
next
  fix existing
  assume a: "first_by_dedupe_key (ki_dedupe_key item) db = Some existing \<and>
          ki_content_hash existing \<noteq> ki_content_hash item"
    and ok: "commit_ok (overwrite existing item)"
  let ?updated = "overwrite existing item"
  let ?db' = "db\<lparr>rows := replace_first (\<lambda>r. ki_dedupe_key r = ki_dedupe_key item)
                         ?updated (rows db)\<rparr>"
  from a ok have step: "ingest_item commit_ok item (db, stats) =
          (?db', stats\<lparr>st_processed := st_processed stats + 1, st_stored := st_stored stats + 1,
                 st_indexed := st_indexed stats + 1\<rparr>)"
    by (simp add: ingest_item_update)
  from a have "find (\<lambda>r. ki_dedupe_key r = ki_dedupe_key item)
        (replace_first (\<lambda>r. ki_dedupe_key r = ki_dedupe_key item) ?updated (rows db))
        = Some ?updated"
    unfolding first_by_dedupe_key_def
    by (intro find_replace_first_same [of _ _ existing]) (simp_all add: overwrite_key_hash)
  then have found: "first_by_dedupe_key (ki_dedupe_key item) ?db' = Some ?updated"
    by (simp add: first_by_dedupe_key_def)
  have fields: "length (rows ?db') = length (rows db) \<and> next_id ?db' = next_id db \<and>
           ki_id ?updated = ki_id existing \<and>
           ki_source_type ?updated = ki_source_type item \<and>
           ki_source_name ?updated = ki_source_name item \<and>
           ki_source_url ?updated = ki_source_url item \<and>
           ki_title ?updated = ki_title item \<and>
           ki_summary ?updated = ki_summary item \<and>
           ki_body_text ?updated = ki_body_text item \<and>
           ki_code_snippets ?updated = ki_code_snippets item \<and>
           ki_tags ?updated = ki_tags item \<and>
           ki_primary_language ?updated = ki_primary_language item \<and>
           ki_framework ?updated = ki_framework item \<and>
           ki_author ?updated = ki_author item \<and>
           ki_licence ?updated = ki_licence item \<and>
           ki_published_at ?updated = ki_published_at item \<and>
           ki_content_hash ?updated = ki_content_hash item \<and>
           ki_dedupe_key ?updated = ki_dedupe_key item"
    by (simp add: overwrite_def length_replace_first)
  from step found fields
  show "\<exists>db' updated.
           ingest_item commit_ok item (db, stats) =
             (db', stats\<lparr>st_processed := st_processed stats + 1,
                         st_stored := st_stored stats + 1,
                         st_indexed := st_indexed stats + 1\<rparr>) \<and>
           first_by_dedupe_key (ki_dedupe_key item) db' = Some updated \<and>
           length (rows db') = length (rows db) \<and> next_id db' = next_id db \<and>
           ki_id updated = ki_id existing \<and>
           ki_source_type updated = ki_source_type item \<and>
           ki_source_name updated = ki_source_name item \<and>
           ki_source_url updated = ki_source_url item \<and>
           ki_title updated = ki_title item \<and>
           ki_summary updated = ki_summary item \<and>
           ki_body_text updated = ki_body_text item \<and>
           ki_code_snippets updated = ki_code_snippets item \<and>
           ki_tags updated = ki_tags item \<and>
           ki_primary_language updated = ki_primary_language item \<and>
           ki_framework updated = ki_framework item \<and>
           ki_author updated = ki_author item \<and>
           ki_licence updated = ki_licence item \<and>
           ki_published_at updated = ki_published_at item \<and>
           ki_content_hash updated = ki_content_hash item \<and>
           ki_dedupe_key updated = ki_dedupe_key item"
    by blast
next
  fix existing
  assume a: "first_by_dedupe_key (ki_dedupe_key item) db = Some existing \<and>
          ki_content_hash existing \<noteq> ki_content_hash item"
    and no: "\<not> commit_ok (overwrite existing item)"
  from a no show "fst (ingest_item commit_ok item (db, stats)) = db"
    by (simp add: ingest_item_update_refused)
qed

text \<open>
  C4, as the code has it. When every commit of the first run succeeds (the run counts as
  many items in \<open>indexed\<close>, which is counted after the commit, as in \<open>stored\<close>, which is
  counted before it) and no two items of the batch share a deduplication key with
  different content hashes, a second run of \<open>ingest\<close> over the same fetched items stores
  nothing, leaves the table as the first run left it, and counts in \<open>skipped\<close> every item
  that \<open>process_item\<close> turns into a \<open>KnowledgeItem\<close>: all \<open>N\<close> fetched items when none
  fails to process.
\<close>

theorem ingest_twice_skips:
  assumes "st_indexed (snd (ingest process_item commit_ok db (Inr raw_items)))
             = st_stored (snd (ingest process_item commit_ok db (Inr raw_items)))"
    and "key_consistent (processed_items process_item raw_items)"
  shows
    "st_stored (snd (ingest process_item commit_ok
        (fst (ingest process_item commit_ok db (Inr raw_items))) (Inr raw_items))) = 0 \<and>
     st_skipped (snd (ingest process_item commit_ok
        (fst (ingest process_item commit_ok db (Inr raw_items))) (Inr raw_items)))
       = length (processed_items process_item raw_items) \<and>
     fst (ingest process_item commit_ok
        (fst (ingest process_item commit_ok db (Inr raw_items))) (Inr raw_items))
       = fst (ingest process_item commit_ok db (Inr raw_items)) \<and>
     ((\<forall>raw \<in> set raw_items. process_item raw \<noteq> None) \<longrightarrow>
        st_skipped (snd (ingest process_item commit_ok
          (fst (ingest process_item commit_ok db (Inr raw_items))) (Inr raw_items)))
          = length raw_items)"
proof -
  let ?stats0 = "\<lparr>st_fetched = 0, st_processed = 0, st_stored = 0, st_indexed = 0,
                  st_skipped = 0\<rparr>\<lparr>st_fetched := length raw_items\<rparr>"
  let ?db1 = "fst (ingest_loop process_item commit_ok raw_items (db, ?stats0))"
  have run1: "ingest process_item commit_ok db (Inr raw_items)
                = ingest_loop process_item commit_ok raw_items (db, ?stats0)"
    by (simp add: ingest_def)
  then have db1: "fst (ingest process_item commit_ok db (Inr raw_items)) = ?db1"
    by simp
  from assms(1) have "uncommitted (snd (ingest_loop process_item commit_ok raw_items (db, ?stats0)))
                        \<le> uncommitted (snd (db, ?stats0))"
    unfolding run1 by (simp add: uncommitted_def)
  then have accepted: "ingest_loop process_item commit_ok raw_items (db, ?stats0)
                         = ingest_loop process_item accept_all raw_items (db, ?stats0)"
    by (rule ingest_loop_committed)
  have "up_to_date (fst (ingest_loop process_item accept_all raw_items (db, ?stats0)))
          ([] @ processed_items process_item raw_items)"
    using accept_all_rows assms(2) by (intro first_run_up_to_date) (simp_all add: up_to_date_def)
  then have "up_to_date ?db1 (processed_items process_item raw_items)"
    by (simp only: accepted append_Nil)
  from second_run_skips [OF this, of commit_ok ?stats0]
  have "ingest process_item commit_ok ?db1 (Inr raw_items) =
          (?db1, ?stats0\<lparr>st_processed := st_processed ?stats0
                              + length (processed_items process_item raw_items),
                         st_skipped := st_skipped ?stats0
                              + length (processed_items process_item raw_items)\<rparr>)"
    by (simp add: ingest_def)
  with db1 show ?thesis
    by (simp add: length_processed_items_all)
qed


lemma entry_keys:
  "ki_dedupe_key first_entry = ''rss::http://x.com/a''"
  "ki_dedupe_key second_entry = ''rss::http://x.com/a''"
  "ki_dedupe_key other_entry = ''rss::http://x.com/b''"
  by (simp_all add: first_entry_def second_entry_def other_entry_def rss_item_def
        generate_dedupe_key_def py_rstrip_def py_lower_def py_lower_char_def)

lemma entry_hashes:
  "ki_content_hash first_entry \<noteq> ki_content_hash second_entry"
  "ki_content_hash second_entry \<noteq> ki_content_hash first_entry"
  by (simp_all add: first_entry_def second_entry_def rss_item_def)

lemma first_in_empty: "first_by_dedupe_key k empty_store = None"
  by (simp add: first_by_dedupe_key_def empty_store_def)

lemma first_in_store_with_first:
  "first_by_dedupe_key (ki_dedupe_key first_entry) store_with_first
     = Some (first_entry\<lparr>ki_id := Some 0\<rparr>)"
  "first_by_dedupe_key (ki_dedupe_key second_entry) store_with_first
     = Some (first_entry\<lparr>ki_id := Some 0\<rparr>)"
  by (simp_all add: first_by_dedupe_key_def store_with_first_def entry_keys)

lemma table_accepts_entries:
  "table_accepts (first_entry\<lparr>ki_id := Some n\<rparr>)"
  "table_accepts (other_entry\<lparr>ki_id := Some n\<rparr>)"
  "table_accepts (overwrite (first_entry\<lparr>ki_id := Some n\<rparr>) second_entry)"
  "\<not> table_accepts (long_title_entry\<lparr>ki_id := Some n\<rparr>)"
proof -
  have lengths: "length (ki_dedupe_key first_entry) \<le> 500"
    "length (ki_dedupe_key second_entry) \<le> 500" "length (ki_dedupe_key other_entry) \<le> 500"
    by (simp_all add: entry_keys)
  then show "table_accepts (first_entry\<lparr>ki_id := Some n\<rparr>)"
    "table_accepts (other_entry\<lparr>ki_id := Some n\<rparr>)"
    "table_accepts (overwrite (first_entry\<lparr>ki_id := Some n\<rparr>) second_entry)"
    by (simp_all add: table_accepts_def fits_def overwrite_def)
       (simp_all add: first_entry_def second_entry_def other_entry_def rss_item_def)
  show "\<not> table_accepts (long_title_entry\<lparr>ki_id := Some n\<rparr>)"
    by (simp add: table_accepts_def long_title_entry_def)
qed

lemma long_title_key: "ki_dedupe_key long_title_entry = ''rss::http://x.com/b''"
  by (simp add: long_title_entry_def rss_item_def
        generate_dedupe_key_def py_rstrip_def py_lower_def py_lower_char_def)

text \<open>
  The table at a database that enforces the column lengths: the first entry is inserted,
  then skipped, then updated in place by the second entry; the entry with the long title
  is refused and leaves the table empty.
\<close>

theorem ingest_decision_table_witness:
  "ingest_item table_accepts first_entry (empty_store, zero_stats) =
     (store_with_first,
      zero_stats\<lparr>st_processed := 1, st_stored := 1, st_indexed := 1\<rparr>) \<and>
   ingest_item table_accepts first_entry (store_with_first, zero_stats) =
     (store_with_first, zero_stats\<lparr>st_processed := 1, st_skipped := 1\<rparr>) \<and>
   (\<exists>db' updated.
      ingest_item table_accepts second_entry (store_with_first, zero_stats) =
        (db', zero_stats\<lparr>st_processed := 1, st_stored := 1, st_indexed := 1\<rparr>) \<and>
      first_by_dedupe_key ''rss::http://x.com/a'' db' = Some updated \<and>
      length (rows db') = 1 \<and> ki_id updated = Some 0 \<and>
      ki_source_url updated = ''http://x.com/a'' \<and> ki_body_text updated = ''second version'') \<and>
   fst (ingest_item table_accepts long_title_entry (empty_store, zero_stats)) = empty_store"
proof -
  note table = ingest_decision_table [where commit_ok = table_accepts]
  note insert = table [THEN conjunct1, THEN mp, THEN conjunct1, THEN mp]
  note refused = table [THEN conjunct1, THEN mp, THEN conjunct2, THEN mp]
  note skip = table [THEN conjunct2, THEN conjunct1, THEN spec, THEN mp]
  note update = table [THEN conjunct2, THEN conjunct2, THEN spec, THEN mp, THEN conjunct1, THEN mp]
  have first_ok: "table_accepts (first_entry\<lparr>ki_id := Some (next_id empty_store)\<rparr>)"
    by (rule table_accepts_entries)
  have "ingest_item table_accepts first_entry (empty_store, zero_stats) =
          (\<lparr>rows = rows empty_store @ [first_entry\<lparr>ki_id := Some (next_id empty_store)\<rparr>],
            next_id = next_id empty_store + 1\<rparr>,
           zero_stats\<lparr>st_processed := st_processed zero_stats + 1,
                      st_stored := st_stored zero_stats + 1,
                      st_indexed := st_indexed zero_stats + 1\<rparr>)"
    by (rule insert [OF first_in_empty first_ok])
  then have inserted: "ingest_item table_accepts first_entry (empty_store, zero_stats) =
     (store_with_first, zero_stats\<lparr>st_processed := 1, st_stored := 1, st_indexed := 1\<rparr>)"
    by (simp add: empty_store_def store_with_first_def zero_stats_def)
  have same: "first_by_dedupe_key (ki_dedupe_key first_entry) store_with_first
          = Some (first_entry\<lparr>ki_id := Some 0\<rparr>) \<and>
        ki_content_hash (first_entry\<lparr>ki_id := Some 0\<rparr>) = ki_content_hash first_entry"
    by (simp add: first_in_store_with_first)
  have "ingest_item table_accepts first_entry (store_with_first, zero_stats) =
          (store_with_first, zero_stats\<lparr>st_processed := st_processed zero_stats + 1,
                                        st_skipped := st_skipped zero_stats + 1\<rparr>)"
    by (rule skip [OF same])
  then have skipped: "ingest_item table_accepts first_entry (store_with_first, zero_stats) =
     (store_with_first, zero_stats\<lparr>st_processed := 1, st_skipped := 1\<rparr>)"
    by (simp add: zero_stats_def)
  have differs: "first_by_dedupe_key (ki_dedupe_key second_entry) store_with_first
          = Some (first_entry\<lparr>ki_id := Some 0\<rparr>) \<and>
        ki_content_hash (first_entry\<lparr>ki_id := Some 0\<rparr>) \<noteq> ki_content_hash second_entry"
    using first_in_store_with_first(2) entry_hashes(1) by simp
  have second_ok: "table_accepts (overwrite (first_entry\<lparr>ki_id := Some 0\<rparr>) second_entry)"
    by (rule table_accepts_entries)
  from update [OF differs second_ok, of zero_stats]
  obtain db' updated where
    step: "ingest_item table_accepts second_entry (store_with_first, zero_stats) =
       (db', zero_stats\<lparr>st_processed := st_processed zero_stats + 1,
                        st_stored := st_stored zero_stats + 1,
                        st_indexed := st_indexed zero_stats + 1\<rparr>)"
    and found: "first_by_dedupe_key (ki_dedupe_key second_entry) db' = Some updated"
    and rest: "length (rows db') = length (rows store_with_first)"
    "ki_id updated = ki_id (first_entry\<lparr>ki_id := Some 0\<rparr>)"
    "ki_source_url updated = ki_source_url second_entry"
    "ki_body_text updated = ki_body_text second_entry"
    by blast
  from step have step': "ingest_item table_accepts second_entry (store_with_first, zero_stats) =
        (db', zero_stats\<lparr>st_processed := 1, st_stored := 1, st_indexed := 1\<rparr>)"
    by (simp add: zero_stats_def)
  from found have found': "first_by_dedupe_key ''rss::http://x.com/a'' db' = Some updated"
    by (simp only: entry_keys)
  from rest have fields: "length (rows db') = 1 \<and> ki_id updated = Some 0 \<and>
      ki_source_url updated = ''http://x.com/a'' \<and> ki_body_text updated = ''second version''"
    by (simp add: store_with_first_def second_entry_def rss_item_def)
  have long_no: "\<not> table_accepts (long_title_entry\<lparr>ki_id := Some (next_id empty_store)\<rparr>)"
    by (rule table_accepts_entries)
  have rolled_back:
    "fst (ingest_item table_accepts long_title_entry (empty_store, zero_stats)) = empty_store"
    by (rule refused [OF first_in_empty long_no])
  from inserted skipped step' found' fields rolled_back show ?thesis by blast
qed

text \<open>
  The entry with the long title meets an empty table: no record has its key, the database
  refuses the row, and the item has been counted in \<open>stored\<close> without being inserted.
\<close>

theorem ingest_refused_counted_stored:
  "first_by_dedupe_key (ki_dedupe_key long_title_entry) empty_store = None \<and>
   ingest_item table_accepts long_title_entry (empty_store, zero_stats) =
     (empty_store, zero_stats\<lparr>st_processed := 1, st_stored := 1\<rparr>) \<and>
   rows empty_store = []"
proof -
  have "\<not> table_accepts (long_title_entry\<lparr>ki_id := Some (next_id empty_store)\<rparr>)"
    by (rule table_accepts_entries)
  from ingest_item_insert_refused [of long_title_entry empty_store table_accepts zero_stats,
      OF first_in_empty this]
  have "ingest_item table_accepts long_title_entry (empty_store, zero_stats) =
     (empty_store, zero_stats\<lparr>st_processed := 1, st_stored := 1\<rparr>)"
    by (simp add: zero_stats_def)
  moreover have "first_by_dedupe_key (ki_dedupe_key long_title_entry) empty_store = None"
    by (rule first_in_empty)
  moreover have "rows empty_store = []"
    by (simp add: empty_store_def)
  ultimately show ?thesis
    by (intro conjI)
qed

lemma ingest_two_entries:
  "ingest Some commit_ok db (Inr [a, b]) =
     ingest_item commit_ok b (ingest_item commit_ok a (db, zero_stats\<lparr>st_fetched := 2\<rparr>))"
  by (simp add: ingest_def zero_stats_def numeral_2_eq_2)

text \<open>
  Two entries with different keys, ingested twice into the empty table of a database that
  enforces the column lengths: the first run inserts both, the second skips both.
\<close>

theorem ingest_twice_skips_witness:
  "st_indexed (snd (ingest Some table_accepts empty_store (Inr [first_entry, other_entry])))
     = st_stored (snd (ingest Some table_accepts empty_store (Inr [first_entry, other_entry]))) \<and>
   st_stored (snd (ingest Some table_accepts empty_store (Inr [first_entry, other_entry]))) = 2 \<and>
   key_consistent (processed_items Some [first_entry, other_entry]) \<and>
   st_stored (snd (ingest Some table_accepts
      (fst (ingest Some table_accepts empty_store (Inr [first_entry, other_entry])))
      (Inr [first_entry, other_entry]))) = 0 \<and>
   st_skipped (snd (ingest Some table_accepts
      (fst (ingest Some table_accepts empty_store (Inr [first_entry, other_entry])))
      (Inr [first_entry, other_entry]))) = 2"
proof -
  let ?s = "zero_stats\<lparr>st_fetched := 2\<rparr>"
  let ?a = "first_entry\<lparr>ki_id := Some 0\<rparr>"
  have run1a: "ingest_item table_accepts first_entry (empty_store, ?s) =
      (\<lparr>rows = [?a], next_id = 1\<rparr>,
       ?s\<lparr>st_processed := 1, st_stored := 1, st_indexed := 1\<rparr>)"
    by (simp add: ingest_item_insert first_in_empty table_accepts_entries)
       (simp add: empty_store_def zero_stats_def)
  have other_new: "first_by_dedupe_key (ki_dedupe_key other_entry) \<lparr>rows = [?a], next_id = 1\<rparr>
      = None"
    by (simp add: first_by_dedupe_key_def entry_keys)
  have run1b: "ingest_item table_accepts other_entry (\<lparr>rows = [?a], next_id = 1\<rparr>,
         ?s\<lparr>st_processed := 1, st_stored := 1, st_indexed := 1\<rparr>) =
      (\<lparr>rows = [?a, other_entry\<lparr>ki_id := Some 1\<rparr>], next_id = 2\<rparr>,
       ?s\<lparr>st_processed := 2, st_stored := 2, st_indexed := 2\<rparr>)"
  proof -
    have ok: "table_accepts
        (other_entry\<lparr>ki_id := Some (next_id \<lparr>rows = [?a], next_id = 1\<rparr>)\<rparr>)"
      by (rule table_accepts_entries)
    from ingest_item_insert [of other_entry "\<lparr>rows = [?a], next_id = 1\<rparr>" table_accepts
        "?s\<lparr>st_processed := 1, st_stored := 1, st_indexed := 1\<rparr>", OF other_new ok]
    show ?thesis
      by (simp add: zero_stats_def)
  qed
  have run1: "snd (ingest Some table_accepts empty_store (Inr [first_entry, other_entry]))
      = ?s\<lparr>st_processed := 2, st_stored := 2, st_indexed := 2\<rparr>"
    by (simp only: ingest_two_entries run1a run1b snd_conv)
  then have committed:
    "st_indexed (snd (ingest Some table_accepts empty_store (Inr [first_entry, other_entry])))
     = st_stored (snd (ingest Some table_accepts empty_store (Inr [first_entry, other_entry])))"
    and stored:
    "st_stored (snd (ingest Some table_accepts empty_store (Inr [first_entry, other_entry]))) = 2"
    by simp_all
  have cons: "key_consistent (processed_items Some [first_entry, other_entry])"
    by (simp add: key_consistent_def processed_items_Cons processed_items_def
          List.map_filter_simps entry_keys)
  have all: "\<forall>raw \<in> set [first_entry, other_entry]. Some raw \<noteq> None"
    by simp
  note twice = ingest_twice_skips [OF committed cons]
  have "st_skipped (snd (ingest Some table_accepts
      (fst (ingest Some table_accepts empty_store (Inr [first_entry, other_entry])))
      (Inr [first_entry, other_entry]))) = length [first_entry, other_entry]"
    by (rule mp [OF twice [THEN conjunct2, THEN conjunct2, THEN conjunct2] all])
  then have "st_skipped (snd (ingest Some table_accepts
      (fst (ingest Some table_accepts empty_store (Inr [first_entry, other_entry])))
      (Inr [first_entry, other_entry]))) = 2"
    by simp
  with twice [THEN conjunct1] committed stored cons show ?thesis
    by blast
qed

text \<open>
  Two entries of one batch with the same deduplication key and different content: each run
  overwrites the record twice, so the second run stores two items and skips none.
\<close>

theorem ingest_twice_overwrites:
  "ki_dedupe_key first_entry = ki_dedupe_key second_entry \<and>
   st_stored (snd (ingest Some accept_all
      (fst (ingest Some accept_all empty_store (Inr [first_entry, second_entry])))
      (Inr [first_entry, second_entry]))) = 2 \<and>
   st_skipped (snd (ingest Some accept_all
      (fst (ingest Some accept_all empty_store (Inr [first_entry, second_entry])))
      (Inr [first_entry, second_entry]))) = 0"
proof -
  let ?k = "\<lambda>r. ki_dedupe_key r = ''rss::http://x.com/a''"
  let ?a = "first_entry\<lparr>ki_id := Some 0\<rparr>"
  let ?b = "overwrite ?a second_entry"
  let ?a' = "overwrite ?b first_entry"
  let ?b' = "overwrite ?a' second_entry"
  let ?s = "zero_stats\<lparr>st_fetched := 2\<rparr>"
  have hashes: "ki_content_hash ?a \<noteq> ki_content_hash second_entry"
    "ki_content_hash ?b \<noteq> ki_content_hash first_entry"
    "ki_content_hash ?a' \<noteq> ki_content_hash second_entry"
    using entry_hashes by (simp_all add: overwrite_key_hash)
  have keys: "?k ?a" "?k ?b" "?k ?a'" "?k ?b'"
    by (simp_all add: overwrite_key_hash entry_keys)
  have run1a: "ingest_item accept_all first_entry (empty_store, ?s) =
      (\<lparr>rows = [?a], next_id = 1\<rparr>,
       ?s\<lparr>st_processed := 1, st_stored := 1, st_indexed := 1\<rparr>)"
    by (simp add: ingest_item_insert first_in_empty accept_all_def)
       (simp add: empty_store_def zero_stats_def)
  have run1b: "ingest_item accept_all second_entry (\<lparr>rows = [?a], next_id = 1\<rparr>,
         ?s\<lparr>st_processed := 1, st_stored := 1, st_indexed := 1\<rparr>) =
      (\<lparr>rows = [?b], next_id = 1\<rparr>,
       ?s\<lparr>st_processed := 2, st_stored := 2, st_indexed := 2\<rparr>)"
    using hashes(1) keys(1)
    by (subst ingest_item_update [where existing = ?a])
       (simp_all add: first_by_dedupe_key_def entry_keys accept_all_def zero_stats_def)
  have run2a: "ingest_item accept_all first_entry (\<lparr>rows = [?b], next_id = 1\<rparr>, ?s) =
      (\<lparr>rows = [?a'], next_id = 1\<rparr>,
       ?s\<lparr>st_processed := 1, st_stored := 1, st_indexed := 1\<rparr>)"
    using hashes(2) keys(2)
    by (subst ingest_item_update [where existing = ?b])
       (simp_all add: first_by_dedupe_key_def entry_keys accept_all_def zero_stats_def)
  have run2b: "ingest_item accept_all second_entry (\<lparr>rows = [?a'], next_id = 1\<rparr>,
         ?s\<lparr>st_processed := 1, st_stored := 1, st_indexed := 1\<rparr>) =
      (\<lparr>rows = [?b'], next_id = 1\<rparr>,
       ?s\<lparr>st_processed := 2, st_stored := 2, st_indexed := 2\<rparr>)"
    using hashes(3) keys(3)
    by (subst ingest_item_update [where existing = ?a'])
       (simp_all add: first_by_dedupe_key_def entry_keys accept_all_def zero_stats_def)
  show ?thesis
    by (simp only: ingest_two_entries run1a run1b run2a run2b fst_conv snd_conv entry_keys)
       (simp add: zero_stats_def)
qed

section \<open>Properties of the rate limiter\<close>

lemma acquire_held: "lock_held self \<Longrightarrow> acquire self t = None"
  by (simp add: acquire.simps)

text \<open>Below the limit the call returns at once, with the old timestamps evicted and \<open>now\<close> recorded.\<close>

lemma acquire_free_slot:
  assumes "\<not> lock_held self"
    and "int (length (filter (\<lambda>r. r > t - window_seconds self) (requests self))) < max_requests self"
  shows "acquire self t =
           Some (self\<lparr>requests := filter (\<lambda>r. r > t - window_seconds self) (requests self) @ [t]\<rparr>, t)"
  using assms by (subst acquire.simps) (simp add: Let_def)

text \<open>
  At the limit the wait is strictly positive: every kept timestamp is younger than the
  window. The call sleeps, retries while it holds the lock, and never returns.
\<close>

lemma acquire_full_never_returns:
  assumes "\<not> lock_held self" and "0 < max_requests self"
    and "max_requests self \<le> int (length (filter (\<lambda>r. r > t - window_seconds self) (requests self)))"
  shows "acquire self t = None"
proof -
  let ?kept = "filter (\<lambda>r. r > t - window_seconds self) (requests self)"
  from assms(2,3) have ne: "?kept \<noteq> []" by auto
  then have "set ?kept \<noteq> {}" by (simp only: set_empty not_False_eq_True)
  then have "Min (set ?kept) \<in> set ?kept" by (rule Min_in [OF finite_set])
  then have "Min (set ?kept) > t - window_seconds self" by simp
  then have wait: "max 0 (Min (set ?kept) + window_seconds self - t) > 0" by simp
  have inner: "acquire (self\<lparr>requests := ?kept, lock_held := True\<rparr>) t' = None" for t'
    by (rule acquire_held) simp
  from assms ne wait show ?thesis
    by (subst acquire.simps) (simp add: Let_def inner)
qed

text \<open>
  C5 at a concrete limiter. With \<open>max_requests = 2\<close> and a window of 60 seconds, the calls
  at times 0 and 1 return at once and record their time; the third call, at time 2, finds
  the limiter full, computes the wait \<open>0 + 60 - 2 = 58 > 0\<close>, sleeps, retries by calling
  itself inside the lock it holds, and never returns.
\<close>

theorem acquire_third_call_never_returns:
  "acquire limiter2 0 = Some (limiter2\<lparr>requests := [0]\<rparr>, 0) \<and>
   acquire (limiter2\<lparr>requests := [0]\<rparr>) 1 = Some (limiter2\<lparr>requests := [0, 1]\<rparr>, 1) \<and>
   max 0 (Min (set [0, 1 :: real]) + window_seconds limiter2 - 2) = 58 \<and>
   acquire (limiter2\<lparr>requests := [0, 1]\<rparr>) 2 = None"
proof -
  have "acquire limiter2 0 = Some (limiter2\<lparr>requests := [0]\<rparr>, 0)"
    by (subst acquire_free_slot) (simp_all add: limiter2_def)
  moreover have "acquire (limiter2\<lparr>requests := [0]\<rparr>) 1 = Some (limiter2\<lparr>requests := [0, 1]\<rparr>, 1)"
    by (subst acquire_free_slot) (simp_all add: limiter2_def)
  moreover have "max 0 (Min (set [0, 1 :: real]) + window_seconds limiter2 - 2) = 58"
    by (simp add: limiter2_def)
  moreover have "acquire (limiter2\<lparr>requests := [0, 1]\<rparr>) 2 = None"
    by (rule acquire_full_never_returns) (simp_all add: limiter2_def)
  ultimately show ?thesis by blast
qed

text \<open>
  The synchronous limiter does what \<open>acquire\<close> misses: it sleeps once and returns, and when
  the domain held exactly \<open>max_requests\<close> timestamps inside the window, a slot is free at
  the time it returns.
\<close>

lemma wait_if_needed_frees_slot:
  assumes "0 < rl_max_requests self" and "0 \<le> rl_window_seconds self"
    and "int (length (filter (\<lambda>ts. ts > now - rl_window_seconds self) (rl_requests self domain)))
           = rl_max_requests self"
    and "wait_if_needed self domain now = (self', now')"
  shows "now' > now \<and> fst (snd (can_make_request self' domain now'))"
proof -
  let ?w = "rl_window_seconds self"
  let ?kept = "filter (\<lambda>ts. ts > now - ?w) (rl_requests self domain)"
  from assms(1,3) have ne: "?kept \<noteq> []" by auto
  then have "set ?kept \<noteq> {}" by (simp only: set_empty not_False_eq_True)
  then have min_in: "Min (set ?kept) \<in> set ?kept" by (rule Min_in [OF finite_set])
  then have young: "Min (set ?kept) > now - ?w" by simp
  let ?wait = "max 0 (Min (set ?kept) + ?w - now)"
  from young have wait: "?wait = Min (set ?kept) + ?w - now" "?wait > 0" by simp_all
  from assms(3,4) ne have self': "self' = self\<lparr>rl_requests := (rl_requests self)(domain := ?kept)\<rparr>"
    and now': "now' = now + ?wait"
    by (simp_all add: wait_if_needed_def can_make_request_def Let_def)
  let ?kept' = "filter (\<lambda>ts. ts > now' - ?w) ?kept"
  have "length ?kept' < length ?kept"
    using now' wait(1) by (intro length_filter_less [OF min_in]) simp
  with assms(3) have "int (length ?kept') < rl_max_requests self" by simp
  with self' have "fst (snd (can_make_request self' domain now'))"
    by (simp add: can_make_request_def Let_def)
  with now' wait(2) show ?thesis by simp
qed

section \<open>Properties of the enrichment task\<close>

lemma validate_all_Inl:
  "validate_all f xs = Inl e \<Longrightarrow> \<exists>x \<in> set xs. f x = Inl e"
  by (induction xs arbitrary: e) (auto split: sum.splits)

lemma KnowledgeItemEnrichment_Inl:
  "KnowledgeItemEnrichment d = Inl e \<Longrightarrow> e = ValidationError"
proof -
  assume a: "KnowledgeItemEnrichment d = Inl e"
  have snip: "CodeSnippetEnrichment c = Inl e' \<Longrightarrow> e' = ValidationError" for c e'
    by (auto simp: CodeSnippetEnrichment_def split: option.splits)
  show ?thesis
  proof (cases "validate_all CodeSnippetEnrichment (py_or_nil (ed_code_snippets d))")
    case (Inl e')
    then have "e' = ValidationError"
      using validate_all_Inl [of CodeSnippetEnrichment _ e'] snip by blast
    with a Inl show ?thesis
      by (auto simp: KnowledgeItemEnrichment_def split: option.splits if_splits)
  next
    case (Inr cs)
    with a show ?thesis
      by (auto simp: KnowledgeItemEnrichment_def split: option.splits if_splits)
  qed
qed

lemma parse_enrichment_Inl:
  "parse_enrichment json_loads answer = Inl e \<Longrightarrow>
   e = JSONDecodeError \<or> e = TypeError \<or> e = ValidationError"
  by (auto simp: parse_enrichment_def split: json_result.splits dest: KnowledgeItemEnrichment_Inl)

text \<open>The schema rejects an object exactly by raising \<open>ValidationError\<close>.\<close>

lemma KnowledgeItemEnrichment_rejects:
  assumes "ed_summary d = None \<or> ed_tags d = None \<or> ed_quality_score d = None \<or>
           (\<exists>s. ed_summary d = Some s \<and> 500 < length s) \<or>
           (\<exists>tags. ed_tags d = Some tags \<and> 15 < length tags) \<or>
           (\<exists>q. ed_quality_score d = Some q \<and> (q < 0 \<or> 1 < q)) \<or>
           (\<exists>c \<in> set (py_or_nil (ed_code_snippets d)). sd_intent c = None)"
  shows "KnowledgeItemEnrichment d = Inl ValidationError"
proof (cases "KnowledgeItemEnrichment d")
  case (Inl e)
  then show ?thesis using KnowledgeItemEnrichment_Inl [of d e] by simp
next
  case (Inr en)
  then obtain s tags q cs where ok: "ed_summary d = Some s" "ed_tags d = Some tags"
      "ed_quality_score d = Some q" "length s \<le> 500" "length tags \<le> 15" "0 \<le> q" "q \<le> 1"
      "validate_all CodeSnippetEnrichment (py_or_nil (ed_code_snippets d)) = Inr cs"
    unfolding KnowledgeItemEnrichment_Inr_iff by blast
  from ok(8) have "\<forall>c \<in> set (py_or_nil (ed_code_snippets d)). sd_intent c \<noteq> None"
    using validate_all_Inr [of CodeSnippetEnrichment "py_or_nil (ed_code_snippets d)"]
    by (simp add: CodeSnippetEnrichment_Inr)
  with assms ok show ?thesis by auto
qed

lemma KnowledgeItemEnrichment_accepts:
  assumes "ed_summary d = Some s" "ed_tags d = Some tags" "ed_quality_score d = Some q"
    and "length s \<le> 500" "length tags \<le> 15" "0 \<le> q" "q \<le> 1"
    and "\<forall>c \<in> set (py_or_nil (ed_code_snippets d)). sd_intent c \<noteq> None"
  shows "\<exists>cs. KnowledgeItemEnrichment d =
           Inr \<lparr>en_summary = s, en_tags = validate_tags tags,
                en_primary_language = ed_primary_language d, en_framework = ed_framework d,
                en_quality_score = q, en_code_snippets = cs\<rparr>"
proof -
  from assms(8) obtain cs where
    "validate_all CodeSnippetEnrichment (py_or_nil (ed_code_snippets d)) = Inr cs"
    using validate_all_Inr [of CodeSnippetEnrichment "py_or_nil (ed_code_snippets d)"]
    by (auto simp: CodeSnippetEnrichment_Inr)
  with assms(1-7) show ?thesis
    by (simp add: KnowledgeItemEnrichment_def)
qed

lemma enrich_provider_error:
  assumes "loop_running \<or> acquire rate_limiter t \<noteq> None"
  shows "enrich_knowledge_item retries py_str json_loads True loop_running rate_limiter t
           (Inl e) commit_ok now (Some item) =
         Some (Inl (if retries < 3 then Retry 60 else e), Some item)"
  using assms by (auto simp: enrich_knowledge_item_def task_retry_def max_retries_def)

lemma enrich_parse_failure:
  assumes "loop_running \<or> acquire rate_limiter t \<noteq> None"
    and "parse_enrichment json_loads answer = Inl e"
  shows "enrich_knowledge_item retries py_str json_loads True loop_running rate_limiter t
           (Inr answer) commit_ok now (Some item) =
         Some (if is_value_error e
               then Inr (StatusError (''Failed to parse AI response: '' @ py_str e)) else Inl e,
               Some item)"
  using assms by (auto simp: enrich_knowledge_item_def)

lemma enrich_parsed:
  assumes "loop_running \<or> acquire rate_limiter t \<noteq> None"
    and "parse_enrichment json_loads answer = Inr en"
  shows "enrich_knowledge_item retries py_str json_loads True loop_running rate_limiter t
           (Inr answer) commit_ok now (Some item) =
         (if commit_ok
          then Some (Inr StatusSuccess,
            Some (item\<lparr>ki_ai_summary := Some (en_summary en),
                       ki_ai_tags := Some (en_tags en),
                       ki_ai_primary_language := en_primary_language en,
                       ki_ai_framework := en_framework en,
                       ki_ai_quality_score := Some (en_quality_score en),
                       ki_ai_extracted_at := Some now,
                       ki_code_snippets :=
                         merge_snippets (ki_code_snippets item) (en_code_snippets en)\<rparr>))
          else Some (Inl CommitError, Some item))"
  using assms by (auto simp: enrich_knowledge_item_def Let_def)

text \<open>A full rate limiter, asked outside a running loop, keeps the task from returning.\<close>

lemma enrich_waits_forever:
  assumes "\<not> loop_running" and "acquire rate_limiter t = None"
  shows "enrich_knowledge_item retries py_str json_loads True loop_running rate_limiter t
           ai_result commit_ok now (Some item) = None"
  using assms by (simp add: enrich_knowledge_item_def)

lemma ai_fields_together_enriched:
  "ai_fields_together
     (item\<lparr>ki_ai_summary := Some s, ki_ai_tags := Some t, ki_ai_primary_language := l,
            ki_ai_framework := f, ki_ai_quality_score := Some q, ki_ai_extracted_at := Some now,
            ki_code_snippets := cs\<rparr>)"
  by (simp add: ai_fields_together_def)

lemma enrich_keeps_ai_fields_together:
  assumes "ai_fields_together item"
    and "enrich_knowledge_item retries py_str json_loads provider_available loop_running
           rate_limiter t ai_result commit_ok now (Some item) = Some (outcome, Some row)"
  shows "ai_fields_together row"
proof (cases "provider_available")
  case False
  with assms show ?thesis by (auto simp: enrich_knowledge_item_def)
next
  case True
  from assms(2) True have waited: "loop_running \<or> acquire rate_limiter t \<noteq> None"
    by (cases loop_running; cases "acquire rate_limiter t")
       (simp_all add: enrich_knowledge_item_def)
  show ?thesis
  proof (cases ai_result)
    case (Inl e)
    with True assms(2) enrich_provider_error [OF waited, of retries py_str json_loads e commit_ok now item]
    have "row = item" by simp
    with assms(1) show ?thesis by simp
  next
    case (Inr answer)
    show ?thesis
    proof (cases "parse_enrichment json_loads answer")
      case (Inl e)
      with True Inr assms(2)
        enrich_parse_failure [OF waited Inl, of retries py_str commit_ok now item]
      have "row = item" by simp
      with assms(1) show ?thesis by simp
    next
      case parsed: (Inr en)
      note r = enrich_parsed [OF waited parsed, of retries py_str commit_ok now item]
      show ?thesis
      proof (cases commit_ok)
        case False
        with True Inr assms(2) r have "row = item" by simp
        with assms(1) show ?thesis by simp
      next
        case commit: True
        with True Inr assms(2) r
        have "row = item\<lparr>ki_ai_summary := Some (en_summary en),
                       ki_ai_tags := Some (en_tags en),
                       ki_ai_primary_language := en_primary_language en,
                       ki_ai_framework := en_framework en,
                       ki_ai_quality_score := Some (en_quality_score en),
                       ki_ai_extracted_at := Some now,
                       ki_code_snippets :=
                         merge_snippets (ki_code_snippets item) (en_code_snippets en)\<rparr>"
          by simp
        then show ?thesis
          by (simp only: ai_fields_together_enriched)
      qed
    qed
  qed
qed

text \<open>
  C7. For an invocation on a stored item with a provider configured, once the wait for
  the rate limiter is over (or skipped, the event loop running):

  \<^item> an error of the provider call makes the task retry after 60 seconds, as long as fewer
    than three retries have been made, and raise the error after that;
  \<^item> an answer that is not JSON, or is a JSON object without a summary, a tag list or a
    quality score, or with a summary of more than 500 characters, more than 15 tags, a
    score outside \<open>[0, 1]\<close> or a snippet entry without intent, leaves the row as it was
    and returns the status \<open>error\<close> with the message \<open>Failed to parse AI response: \<close>
    followed by the text of the exception; it is not retried;
  \<^item> an answer that is JSON but not an object raises \<open>TypeError\<close> and leaves the row as it
    was;
  \<^item> an answer that is a JSON object meeting the schema sets the summary, the normalised
    tags, the language, the framework and the score from the object, and stamps
    \<open>ai_extracted_at\<close>, when the commit succeeds; when the commit fails the row is as it
    was.

  Whatever the invocation does, a row whose AI fields were all unset, or set together with
  the stamp, stays so.
\<close>

theorem enrichment_outcomes:
  "(loop_running \<or> acquire rate_limiter t \<noteq> None \<longrightarrow>
     (\<forall>e. enrich_knowledge_item retries py_str json_loads True loop_running rate_limiter t
            (Inl e) commit_ok now (Some item)
          = Some (Inl (if retries < 3 then Retry 60 else e), Some item)) \<and>
     (\<forall>answer. json_loads (strip_code_fences answer) = NotJson \<longrightarrow>
        enrich_knowledge_item retries py_str json_loads True loop_running rate_limiter t
            (Inr answer) commit_ok now (Some item)
          = Some (Inr (StatusError (''Failed to parse AI response: '' @ py_str JSONDecodeError)),
                  Some item)) \<and>
     (\<forall>answer d. json_loads (strip_code_fences answer) = JsonObject d \<and>
          (ed_summary d = None \<or> ed_tags d = None \<or> ed_quality_score d = None \<or>
           (\<exists>s. ed_summary d = Some s \<and> 500 < length s) \<or>
           (\<exists>tags. ed_tags d = Some tags \<and> 15 < length tags) \<or>
           (\<exists>q. ed_quality_score d = Some q \<and> (q < 0 \<or> 1 < q)) \<or>
           (\<exists>c \<in> set (py_or_nil (ed_code_snippets d)). sd_intent c = None)) \<longrightarrow>
        enrich_knowledge_item retries py_str json_loads True loop_running rate_limiter t
            (Inr answer) commit_ok now (Some item)
          = Some (Inr (StatusError (''Failed to parse AI response: '' @ py_str ValidationError)),
                  Some item)) \<and>
     (\<forall>answer. json_loads (strip_code_fences answer) = NotObject \<longrightarrow>
        enrich_knowledge_item retries py_str json_loads True loop_running rate_limiter t
            (Inr answer) commit_ok now (Some item)
          = Some (Inl TypeError, Some item)) \<and>
     (\<forall>answer d s tags q. json_loads (strip_code_fences answer) = JsonObject d \<and>
          ed_summary d = Some s \<and> ed_tags d = Some tags \<and> ed_quality_score d = Some q \<and>
          length s \<le> 500 \<and> length tags \<le> 15 \<and> 0 \<le> q \<and> q \<le> 1 \<and>
          (\<forall>c \<in> set (py_or_nil (ed_code_snippets d)). sd_intent c \<noteq> None) \<longrightarrow>
        (\<exists>updated.
           enrich_knowledge_item retries py_str json_loads True loop_running rate_limiter t
               (Inr answer) True now (Some item)
             = Some (Inr StatusSuccess, Some updated) \<and>
           ki_ai_summary updated = Some s \<and>
           ki_ai_tags updated =
             Some (map (\<lambda>tag. py_replace_char CHR '' '' CHR ''-'' (py_strip (py_lower tag)))
                     (filter (\<lambda>tag. py_strip tag \<noteq> []) tags)) \<and>
           ki_ai_primary_language updated = ed_primary_language d \<and>
           ki_ai_framework updated = ed_framework d \<and>
           ki_ai_quality_score updated = Some q \<and>
           ki_ai_extracted_at updated = Some now) \<and>
        enrich_knowledge_item retries py_str json_loads True loop_running rate_limiter t
            (Inr answer) False now (Some item)
          = Some (Inl CommitError, Some item))) \<and>
   (ai_fields_together item \<longrightarrow>
      (\<forall>outcome row.
         enrich_knowledge_item retries py_str json_loads provider_available loop_running
           rate_limiter t ai_result commit_ok now (Some item) = Some (outcome, Some row) \<longrightarrow>
         ai_fields_together row))"
proof (intro conjI allI impI)
  fix e
  assume waited: "loop_running \<or> acquire rate_limiter t \<noteq> None"
  show "enrich_knowledge_item retries py_str json_loads True loop_running rate_limiter t
            (Inl e) commit_ok now (Some item)
          = Some (Inl (if retries < 3 then Retry 60 else e), Some item)"
    by (rule enrich_provider_error [OF waited])
next
  fix answer
  assume waited: "loop_running \<or> acquire rate_limiter t \<noteq> None"
    and j: "json_loads (strip_code_fences answer) = NotJson"
  from j have p: "parse_enrichment json_loads answer = Inl JSONDecodeError"
    by (simp add: parse_enrichment_def)
  show "enrich_knowledge_item retries py_str json_loads True loop_running rate_limiter t
            (Inr answer) commit_ok now (Some item)
          = Some (Inr (StatusError (''Failed to parse AI response: '' @ py_str JSONDecodeError)),
                  Some item)"
    by (simp add: enrich_parse_failure [OF waited p] is_value_error_def)
next
  fix answer d
  assume waited: "loop_running \<or> acquire rate_limiter t \<noteq> None"
    and j: "json_loads (strip_code_fences answer) = JsonObject d \<and>
          (ed_summary d = None \<or> ed_tags d = None \<or> ed_quality_score d = None \<or>
           (\<exists>s. ed_summary d = Some s \<and> 500 < length s) \<or>
           (\<exists>tags. ed_tags d = Some tags \<and> 15 < length tags) \<or>
           (\<exists>q. ed_quality_score d = Some q \<and> (q < 0 \<or> 1 < q)) \<or>
           (\<exists>c \<in> set (py_or_nil (ed_code_snippets d)). sd_intent c = None))"
  from j have "KnowledgeItemEnrichment d = Inl ValidationError"
    by (intro KnowledgeItemEnrichment_rejects) blast
  with j have p: "parse_enrichment json_loads answer = Inl ValidationError"
    by (simp add: parse_enrichment_def)
  show "enrich_knowledge_item retries py_str json_loads True loop_running rate_limiter t
            (Inr answer) commit_ok now (Some item)
          = Some (Inr (StatusError (''Failed to parse AI response: '' @ py_str ValidationError)),
                  Some item)"
    by (simp add: enrich_parse_failure [OF waited p] is_value_error_def)
next
  fix answer
  assume waited: "loop_running \<or> acquire rate_limiter t \<noteq> None"
    and j: "json_loads (strip_code_fences answer) = NotObject"
  from j have p: "parse_enrichment json_loads answer = Inl TypeError"
    by (simp add: parse_enrichment_def)
  show "enrich_knowledge_item retries py_str json_loads True loop_running rate_limiter t
            (Inr answer) commit_ok now (Some item)
          = Some (Inl TypeError, Some item)"
    by (simp add: enrich_parse_failure [OF waited p] is_value_error_def)
next
  fix answer d s tags q
  assume waited: "loop_running \<or> acquire rate_limiter t \<noteq> None"
    and j: "json_loads (strip_code_fences answer) = JsonObject d \<and>
          ed_summary d = Some s \<and> ed_tags d = Some tags \<and> ed_quality_score d = Some q \<and>
          length s \<le> 500 \<and> length tags \<le> 15 \<and> 0 \<le> q \<and> q \<le> 1 \<and>
          (\<forall>c \<in> set (py_or_nil (ed_code_snippets d)). sd_intent c \<noteq> None)"
  from j obtain cs where "KnowledgeItemEnrichment d =
           Inr \<lparr>en_summary = s, en_tags = validate_tags tags,
                en_primary_language = ed_primary_language d, en_framework = ed_framework d,
                en_quality_score = q, en_code_snippets = cs\<rparr>"
    using KnowledgeItemEnrichment_accepts [of d s tags q] by blast
  with j have p: "parse_enrichment json_loads answer =
           Inr \<lparr>en_summary = s, en_tags = validate_tags tags,
                en_primary_language = ed_primary_language d, en_framework = ed_framework d,
                en_quality_score = q, en_code_snippets = cs\<rparr>"
    by (simp add: parse_enrichment_def)
  show "\<exists>updated.
           enrich_knowledge_item retries py_str json_loads True loop_running rate_limiter t
               (Inr answer) True now (Some item)
             = Some (Inr StatusSuccess, Some updated) \<and>
           ki_ai_summary updated = Some s \<and>
           ki_ai_tags updated =
             Some (map (\<lambda>tag. py_replace_char CHR '' '' CHR ''-'' (py_strip (py_lower tag)))
                     (filter (\<lambda>tag. py_strip tag \<noteq> []) tags)) \<and>
           ki_ai_primary_language updated = ed_primary_language d \<and>
           ki_ai_framework updated = ed_framework d \<and>
           ki_ai_quality_score updated = Some q \<and>
           ki_ai_extracted_at updated = Some now"
    by (simp add: enrich_parsed [OF waited p] validate_tags_def)
  show "enrich_knowledge_item retries py_str json_loads True loop_running rate_limiter t
            (Inr answer) False now (Some item)
          = Some (Inl CommitError, Some item)"
    by (simp add: enrich_parsed [OF waited p])
next
  fix outcome row
  assume "ai_fields_together item"
    and "enrich_knowledge_item retries py_str json_loads provider_available loop_running
           rate_limiter t ai_result commit_ok now (Some item) = Some (outcome, Some row)"
  then show "ai_fields_together row"
    by (rule enrich_keeps_ai_fields_together)
qed

lemma strip_code_fences_samples:
  "strip_code_fences good_answer = good_answer"
  "strip_code_fences overrated_answer = overrated_answer"
  "strip_code_fences ''not json'' = ''not json''"
  "strip_code_fences ''[]'' = ''[]''"
  by (simp_all add: strip_code_fences_def py_strip_def py_isspace_def py_startswith_def
        good_answer_def overrated_answer_def dq_def)

lemma sample_loads_samples:
  "sample_loads ''not json'' = NotJson"
  "sample_loads ''[]'' = NotObject"
  "sample_loads good_answer =
     JsonObject \<lparr>ed_summary = Some ''Test'', ed_tags = Some [''Python'', ''React.js''],
                 ed_primary_language = None, ed_framework = None,
                 ed_quality_score = Some (1 / 2), ed_code_snippets = None\<rparr>"
  "sample_loads overrated_answer =
     JsonObject \<lparr>ed_summary = Some ''Test'', ed_tags = Some [''Python'', ''React.js''],
                 ed_primary_language = None, ed_framework = None,
                 ed_quality_score = Some (3 / 2), ed_code_snippets = None\<rparr>"
  by (simp_all add: sample_loads_def good_answer_def overrated_answer_def dq_def)

lemma stored_first_unenriched: "ai_fields_together stored_first"
  by (simp add: ai_fields_together_def stored_first_def first_entry_def rss_item_def)

lemma limiter2_free_slot: "acquire limiter2 0 \<noteq> None"
  by (subst acquire_free_slot) (simp_all add: limiter2_def)

text \<open>
  The outcomes on the row of the first entry, at a limiter with a free slot: a provider
  error before and after the third retry, a text that is not JSON, an object with the
  quality score 1.5, an array, and an object the schema accepts.
\<close>

theorem enrichment_outcomes_witness:
  "acquire limiter2 0 \<noteq> None \<and>
   enrich_knowledge_item 0 sample_str sample_loads True False limiter2 0 (Inl ApiError) True 100
       (Some stored_first)
     = Some (Inl (Retry 60), Some stored_first) \<and>
   enrich_knowledge_item 3 sample_str sample_loads True False limiter2 0 (Inl ApiError) True 100
       (Some stored_first)
     = Some (Inl ApiError, Some stored_first) \<and>
   enrich_knowledge_item 0 sample_str sample_loads True False limiter2 0 (Inr ''not json'') True 100
       (Some stored_first)
     = Some (Inr (StatusError
          ''Failed to parse AI response: Expecting value: line 1 column 1 (char 0)''),
        Some stored_first) \<and>
   enrich_knowledge_item 0 sample_str sample_loads True False limiter2 0 (Inr overrated_answer)
       True 100 (Some stored_first)
     = Some (Inr (StatusError
          ''Failed to parse AI response: 1 validation error for KnowledgeItemEnrichment''),
        Some stored_first) \<and>
   enrich_knowledge_item 0 sample_str sample_loads True False limiter2 0 (Inr ''[]'') True 100
       (Some stored_first)
     = Some (Inl TypeError, Some stored_first) \<and>
   (\<exists>updated.
      enrich_knowledge_item 0 sample_str sample_loads True False limiter2 0 (Inr good_answer)
          True 100 (Some stored_first)
        = Some (Inr StatusSuccess, Some updated) \<and>
      ki_ai_summary updated = Some ''Test'' \<and>
      ki_ai_tags updated = Some [''python'', ''react.js''] \<and>
      ki_ai_quality_score updated = Some (1 / 2) \<and>
      ki_ai_extracted_at updated = Some 100 \<and>
      ai_fields_together updated) \<and>
   ai_fields_together stored_first"
proof -
  note outcomes0 = enrichment_outcomes [where loop_running = False and rate_limiter = limiter2
      and t = 0 and retries = 0 and py_str = sample_str and json_loads = sample_loads
      and commit_ok = True and now = 100 and item = stored_first, THEN conjunct1, THEN mp,
      OF disjI2, OF limiter2_free_slot]
  note outcomes3 = enrichment_outcomes [where loop_running = False and rate_limiter = limiter2
      and t = 0 and retries = 3 and py_str = sample_str and json_loads = sample_loads
      and commit_ok = True and now = 100 and item = stored_first, THEN conjunct1, THEN mp,
      OF disjI2, OF limiter2_free_slot]
  note retry0 = outcomes0 [THEN conjunct1, THEN spec, of ApiError]
  note retry3 = outcomes3 [THEN conjunct1, THEN spec, of ApiError]
  note not_json = outcomes0 [THEN conjunct2, THEN conjunct1, THEN spec, of "''not json''",
      THEN mp]
  note rejected = outcomes0 [THEN conjunct2, THEN conjunct2, THEN conjunct1,
      THEN spec, THEN spec, of overrated_answer
        "\<lparr>ed_summary = Some ''Test'', ed_tags = Some [''Python'', ''React.js''],
          ed_primary_language = None, ed_framework = None,
          ed_quality_score = Some (3 / 2), ed_code_snippets = None\<rparr>", THEN mp]
  note array = outcomes0 [THEN conjunct2, THEN conjunct2, THEN conjunct2,
      THEN conjunct1, THEN spec, of "''[]''", THEN mp]
  note accepted = outcomes0 [THEN conjunct2, THEN conjunct2, THEN conjunct2,
      THEN conjunct2, THEN spec, THEN spec, THEN spec, THEN spec, THEN spec, of good_answer
        "\<lparr>ed_summary = Some ''Test'', ed_tags = Some [''Python'', ''React.js''],
          ed_primary_language = None, ed_framework = None,
          ed_quality_score = Some (1 / 2), ed_code_snippets = None\<rparr>"
        "''Test''" "[''Python'', ''React.js'']" "1 / 2", THEN mp, THEN conjunct1]
  note together = enrichment_outcomes [where loop_running = False and rate_limiter = limiter2
      and t = 0 and retries = 0 and py_str = sample_str and json_loads = sample_loads
      and commit_ok = True and now = 100 and item = stored_first
      and provider_available = True and ai_result = "Inr good_answer", THEN conjunct2,
      THEN mp, OF stored_first_unenriched, THEN spec, THEN spec, THEN mp]
  have r0: "enrich_knowledge_item 0 sample_str sample_loads True False limiter2 0 (Inl ApiError)
       True 100 (Some stored_first) = Some (Inl (Retry 60), Some stored_first)"
    using retry0 by simp
  have r3: "enrich_knowledge_item 3 sample_str sample_loads True False limiter2 0 (Inl ApiError)
       True 100 (Some stored_first) = Some (Inl ApiError, Some stored_first)"
    using retry3 by simp
  have nj: "enrich_knowledge_item 0 sample_str sample_loads True False limiter2 0
       (Inr ''not json'') True 100 (Some stored_first)
     = Some (Inr (StatusError
          ''Failed to parse AI response: Expecting value: line 1 column 1 (char 0)''),
        Some stored_first)"
    using not_json by (simp add: strip_code_fences_samples sample_loads_samples sample_str_def)
  have rj: "enrich_knowledge_item 0 sample_str sample_loads True False limiter2 0
       (Inr overrated_answer) True 100 (Some stored_first)
     = Some (Inr (StatusError
          ''Failed to parse AI response: 1 validation error for KnowledgeItemEnrichment''),
        Some stored_first)"
  proof -
    let ?d = "\<lparr>ed_summary = Some ''Test'', ed_tags = Some [''Python'', ''React.js''],
          ed_primary_language = None, ed_framework = None,
          ed_quality_score = Some (3 / 2), ed_code_snippets = None\<rparr>"
    have score: "\<exists>q. ed_quality_score ?d = Some q \<and> (q < 0 \<or> 1 < q)"
      by (rule exI [of _ "3 / 2"]) simp
    have loads: "sample_loads (strip_code_fences overrated_answer) = JsonObject ?d"
      by (simp add: strip_code_fences_samples sample_loads_samples)
    from loads score
    have "sample_loads (strip_code_fences overrated_answer) = JsonObject ?d \<and>
          (ed_summary ?d = None \<or> ed_tags ?d = None \<or> ed_quality_score ?d = None \<or>
           (\<exists>s. ed_summary ?d = Some s \<and> 500 < length s) \<or>
           (\<exists>tags. ed_tags ?d = Some tags \<and> 15 < length tags) \<or>
           (\<exists>q. ed_quality_score ?d = Some q \<and> (q < 0 \<or> 1 < q)) \<or>
           (\<exists>c \<in> set (py_or_nil (ed_code_snippets ?d)). sd_intent c = None))"
      by blast
    from rejected [OF this] show ?thesis
      by (simp add: sample_str_def)
  qed
  have ar: "enrich_knowledge_item 0 sample_str sample_loads True False limiter2 0 (Inr ''[]'')
       True 100 (Some stored_first) = Some (Inl TypeError, Some stored_first)"
    using array by (simp add: strip_code_fences_samples sample_loads_samples)
  have "\<exists>updated.
      enrich_knowledge_item 0 sample_str sample_loads True False limiter2 0 (Inr good_answer)
          True 100 (Some stored_first)
        = Some (Inr StatusSuccess, Some updated) \<and>
      ki_ai_summary updated = Some ''Test'' \<and>
      ki_ai_tags updated = Some [''python'', ''react.js''] \<and>
      ki_ai_primary_language updated = None \<and>
      ki_ai_framework updated = None \<and>
      ki_ai_quality_score updated = Some (1 / 2) \<and>
      ki_ai_extracted_at updated = Some 100"
  proof -
    let ?d = "\<lparr>ed_summary = Some ''Test'', ed_tags = Some [''Python'', ''React.js''],
          ed_primary_language = None, ed_framework = None,
          ed_quality_score = Some (1 / 2), ed_code_snippets = None\<rparr>"
    have tags: "map (\<lambda>tag. py_replace_char CHR '' '' CHR ''-'' (py_strip (py_lower tag)))
                  (filter (\<lambda>tag. py_strip tag \<noteq> []) [''Python'', ''React.js''])
                = [''python'', ''react.js'']"
      by (simp add: py_strip_def py_isspace_def py_lower_def py_lower_char_def
            py_replace_char_def char_of_eq_iff)
    have "sample_loads (strip_code_fences good_answer) = JsonObject ?d \<and>
          ed_summary ?d = Some ''Test'' \<and> ed_tags ?d = Some [''Python'', ''React.js''] \<and>
          ed_quality_score ?d = Some (1 / 2) \<and>
          length ''Test'' \<le> 500 \<and> length [''Python'', ''React.js''] \<le> 15 \<and>
          0 \<le> (1 / 2 :: real) \<and> (1 / 2 :: real) \<le> 1 \<and>
          (\<forall>c \<in> set (py_or_nil (ed_code_snippets ?d)). sd_intent c \<noteq> None)"
      by (simp add: strip_code_fences_samples sample_loads_samples py_or_nil_def)
    from accepted [OF this] show ?thesis
      unfolding tags by simp
  qed
  then obtain updated where
    u: "enrich_knowledge_item 0 sample_str sample_loads True False limiter2 0 (Inr good_answer)
          True 100 (Some stored_first) = Some (Inr StatusSuccess, Some updated)"
      "ki_ai_summary updated = Some ''Test''"
      "ki_ai_tags updated = Some [''python'', ''react.js'']"
      "ki_ai_quality_score updated = Some (1 / 2)"
      "ki_ai_extracted_at updated = Some 100"
    by blast
  from together [OF u(1)] have "ai_fields_together updated" .
  with r0 r3 nj rj ar u limiter2_free_slot stored_first_unenriched
  show ?thesis by blast
qed

section \<open>Properties of question answering\<close>

text \<open>
  With no item retrieved the fixed response is returned and \<open>generate_text\<close> is not called,
  whatever the provider, the rate limiter and the decoder would do.
\<close>

lemma ask_without_items:
  assumes "provider_available"
    and "\<And>sem emb. search sem emb top_k = Inr []"
  shows "\<exists>calls.
           ask_question provider_available generate_embedding search get_ask_prompt rate_limiter t
             generate_text json_loads question top_k semantic
           = Some (Inr \<lparr>ar_answer = no_information, ar_confidence = 0, ar_citations = [],
                        ar_matched_items = []\<rparr>, calls) \<and>
           (\<forall>prompt. GenerateText prompt \<notin> set calls)"
  using assms
  by (cases "generate_embedding question")
     (auto simp: ask_question_def Let_def split: if_splits)

text \<open>
  With items retrieved, a free slot in the rate limiter and an answer that is not JSON, or
  is a JSON object the schema rejects, the fallback answer with confidence 0.5 is
  returned.
\<close>

lemma ask_fallback:
  assumes "provider_available" "search False None top_k = Inr items" "items \<noteq> []"
    and "acquire rate_limiter t = Some acquired"
    and "generate_text (get_ask_prompt question items) = Inr response_text"
    and "json_loads (strip_code_fences response_text) = NotJson \<or>
         (\<exists>d. json_loads (strip_code_fences response_text) = JsonObject d \<and>
              AskResponse d = Inl ValidationError)"
  shows "ask_question provider_available generate_embedding search get_ask_prompt rate_limiter t
           generate_text json_loads question top_k False
         = Some (Inr \<lparr>ar_answer = as_answer fallback_answer, ar_confidence = 1 / 2,
                      ar_citations = build_citations items,
                      ar_matched_items = take top_k items\<rparr>,
                 [GenerateText (get_ask_prompt question items)])"
  using assms
  by (auto simp: ask_question_def Let_def parse_answer_def is_value_error_def fallback_answer_def)

text \<open>
  With items retrieved and the rate limiter full, the call waits in \<open>acquire\<close> and never
  returns.
\<close>

lemma ask_waits_forever:
  assumes "provider_available" "search False None top_k = Inr items" "items \<noteq> []"
    and "acquire rate_limiter t = None"
  shows "ask_question provider_available generate_embedding search get_ask_prompt rate_limiter t
           generate_text json_loads question top_k False = None"
  using assms by (simp add: ask_question_def Let_def)

text \<open>
  C9 at a concrete answer. One item is retrieved and the provider answers with the JSON
  array \<open>[]\<close>: the text decodes, the value is not a dictionary, \<open>AskResponse(**answer_data)\<close>
  raises \<open>TypeError\<close>, which the clause \<open>except (json.JSONDecodeError, ValueError)\<close> does not
  catch: the error is raised to the caller and no fallback answer is returned.
\<close>

theorem ask_array_answer_raises:
  "parse_answer sample_loads_answer ''[]'' = Inl TypeError \<and>
   ask_question True sample_embedding sample_search sample_prompt limiter2 0
       array_answer sample_loads_answer ''why?'' 5 True
     = Some (Inl TypeError, [GenerateEmbedding ''why?'', GenerateText ''why?''])"
proof -
  have fence: "strip_code_fences ''[]'' = ''[]''"
    by (simp add: strip_code_fences_def py_strip_def py_isspace_def py_startswith_def)
  then have parse: "parse_answer sample_loads_answer ''[]'' = Inl TypeError"
    by (simp add: parse_answer_def sample_loads_answer_def)
  have slot: "acquire limiter2 0 = Some (limiter2\<lparr>requests := [0]\<rparr>, 0)"
    by (subst acquire_free_slot) (simp_all add: limiter2_def)
  have "ask_question True sample_embedding sample_search sample_prompt limiter2 0
       array_answer sample_loads_answer ''why?'' 5 True
     = Some (Inl TypeError, [GenerateEmbedding ''why?'', GenerateText ''why?''])"
    by (simp add: ask_question_def Let_def sample_embedding_def sample_search_def
          sample_prompt_def array_answer_def parse slot is_value_error_def)
  with parse show ?thesis by simp
qed

end
